theory Spec2Isabelle
  imports Complex_Main "HOL-Library.Char_ord" "HOL-Library.List_Lexorder"
begin

section \<open>Tables of \<open>CovidChart._preprocess_df\<close>\<close>

text \<open>
  A pandas DataFrame is a list of rows in row order; a row is a record with one field per
  column. Dates are day numbers (\<open>int\<close>). A cell that pandas can hold as NaN/None is an
  \<open>option\<close> (\<open>None\<close> is the missing value). A method that can raise returns \<open>error + table\<close>,
  with \<open>Inl\<close> for the exception. The raw measure column is a column of
  finite numbers: tables with missing or infinite measures are outside this model.
  Real arithmetic stands for float64 arithmetic: rounding, overflow and the sign of zero
  are not modelled; the special values NaN and the two infinities are (see \<open>fval\<close>).

  These tables occur: the raw input (\<open>observation\<close>), the input with its \<open>y\<close> column
  (\<open>series_row\<close>), the table the start criterion returns (\<open>aligned_row\<close>), the
  intervention table as supplied (\<open>intervention\<close>) and as joined to the anchor dates
  (\<open>quarantine_row\<close>), and the table handed to the chart (\<open>chart_row\<close>). Tables share
  column names, so a column is written with its table name where needed
  (\<open>chart_row.x\<close>, \<open>aligned_row.x\<close>).
\<close>

datatype fval = NaN | PInf | NInf | Fin real

record quarantine_row =
  group_id :: string
  lockdown_date :: int
  lockdown_type :: string
  date_of_N :: int
  lockdown_x :: int

record chart_row =
  group_id :: string
  date :: "int option"
  measure :: "real option"
  y :: "real option"
  date_of_N :: "int option"
  x :: "int option"
  lockdown_date :: "int option"
  lockdown_type :: "string option"
  lockdown_x :: "int option"
  intercept :: "real option"
  lockdown_y :: "real option"
  lockdown_slope :: fval

record observation =
  group_id :: string
  date :: int
  measure :: real

record series_row = observation +
  y :: real

record aligned_row = series_row +
  date_of_N :: int
  x :: int

record intervention =
  group_id :: "string option"
  lockdown_date :: "int option"
  lockdown_type :: "string option"

record chart =
  ycol_is_cumulative :: bool
  top_k_groups :: "int option"
  start_criterion :: "series_row list \<Rightarrow> aligned_row list"
  quarantine_df :: "intervention list option"
  xdomain :: "(real \<times> real) option"
  ydomain :: "(real \<times> real) option"

section \<open>numpy arithmetic on columns\<close>

definition of_col :: "real option \<Rightarrow> fval" where
  "of_col v = (case v of None \<Rightarrow> NaN | Some a \<Rightarrow> Fin a)"

definition of_int_col :: "int option \<Rightarrow> fval" where
  "of_int_col v = (case v of None \<Rightarrow> NaN | Some n \<Rightarrow> Fin (of_int n))"

text \<open>Division of float columns: a zero divisor gives an infinity or NaN, never an error.\<close>

fun fdiv :: "fval \<Rightarrow> fval \<Rightarrow> fval" where
  "fdiv NaN _ = NaN"
| "fdiv _ NaN = NaN"
| "fdiv (Fin a) (Fin b) =
     (if b = 0 then (if 0 < a then PInf else if a < 0 then NInf else NaN) else Fin (a / b))"
| "fdiv (Fin a) PInf = Fin 0"
| "fdiv (Fin a) NInf = Fin 0"
| "fdiv PInf (Fin b) = (if 0 \<le> b then PInf else NInf)"
| "fdiv NInf (Fin b) = (if 0 \<le> b then NInf else PInf)"
| "fdiv PInf PInf = NaN"
| "fdiv PInf NInf = NaN"
| "fdiv NInf PInf = NaN"
| "fdiv NInf NInf = NaN"

text \<open>\<open>np.log\<close> and \<open>np.exp\<close>: outside the domain they warn and return NaN or an infinity.\<close>

fun np_log :: "fval \<Rightarrow> fval" where
  "np_log NaN = NaN"
| "np_log PInf = PInf"
| "np_log NInf = NaN"
| "np_log (Fin a) = (if 0 < a then Fin (ln a) else if a = 0 then NInf else NaN)"

fun np_exp :: "fval \<Rightarrow> fval" where
  "np_exp NaN = NaN"
| "np_exp PInf = PInf"
| "np_exp NInf = Fin 0"
| "np_exp (Fin a) = Fin (exp a)"

text \<open>
  Multiplication and a power with a natural exponent, as numpy computes them; the code does
  not use them, the equation that C1 states about the slope does.
\<close>

fun fmul :: "fval \<Rightarrow> fval \<Rightarrow> fval" where
  "fmul NaN _ = NaN"
| "fmul _ NaN = NaN"
| "fmul (Fin a) (Fin b) = Fin (a * b)"
| "fmul (Fin a) PInf = (if 0 < a then PInf else if a < 0 then NInf else NaN)"
| "fmul (Fin a) NInf = (if 0 < a then NInf else if a < 0 then PInf else NaN)"
| "fmul PInf (Fin b) = (if 0 < b then PInf else if b < 0 then NInf else NaN)"
| "fmul NInf (Fin b) = (if 0 < b then NInf else if b < 0 then PInf else NaN)"
| "fmul PInf PInf = PInf"
| "fmul PInf NInf = NInf"
| "fmul NInf PInf = NInf"
| "fmul NInf NInf = PInf"

fun fpow :: "fval \<Rightarrow> nat \<Rightarrow> fval" where
  "fpow v 0 = Fin 1"
| "fpow v (Suc k) = fmul v (fpow v k)"

text \<open>Comparison of a column with a column or a bound: False wherever a cell is missing.\<close>

definition le_col :: "('a::linorder) option \<Rightarrow> 'a option \<Rightarrow> bool" where
  "le_col a b = (case (a, b) of (Some v, Some w) \<Rightarrow> v \<le> w | _ \<Rightarrow> False)"

section \<open>Series normalizer: the \<open>y\<close> column and the top groups\<close>

text \<open>\<open>Series.cumsum\<close>: the running sums of a column, in row order.\<close>

fun cumsum_from :: "real \<Rightarrow> real list \<Rightarrow> real list" where
  "cumsum_from acc [] = []"
| "cumsum_from acc (v # vs) = (acc + v) # cumsum_from (acc + v) vs"

definition cumsum :: "real list \<Rightarrow> real list" where
  "cumsum vs = cumsum_from 0 vs"

text \<open>\<open>Series.unique\<close>: the distinct values in order of first appearance.\<close>

fun unique_from :: "'a list \<Rightarrow> 'a list \<Rightarrow> 'a list" where
  "unique_from seen [] = []"
| "unique_from seen (v # vs) =
     (if v \<in> set seen then unique_from seen vs else v # unique_from (v # seen) vs)"

definition unique :: "'a list \<Rightarrow> 'a list" where
  "unique vs = unique_from [] vs"

text \<open>
  \<open>df.loc[pred, Y] = values\<close>: the rows selected by \<open>pred\<close> take the values in row order
  (the values come from the same selection, so there is one value per selected row).
\<close>

fun loc_assign :: "(series_row \<Rightarrow> bool) \<Rightarrow> real list \<Rightarrow> series_row list \<Rightarrow> series_row list" where
  "loc_assign pred vs [] = []"
| "loc_assign pred [] (r # rs) = r # rs"
| "loc_assign pred (v # vs) (r # rs) =
     (if pred r then r\<lparr>series_row.y := v\<rparr> # loc_assign pred vs rs
      else r # loc_assign pred (v # vs) rs)"

definition with_y :: "observation \<Rightarrow> real \<Rightarrow> series_row" where
  "with_y r v = \<lparr>observation.group_id = observation.group_id r, date = observation.date r,
     measure = observation.measure r, y = v\<rparr>"

text \<open>One pass of the loop over the groups (lines 73 and 74).\<close>

definition cumulate_group :: "series_row list \<Rightarrow> string \<Rightarrow> series_row list" where
  "cumulate_group df g =
     (let pred = (\<lambda>r. observation.group_id r = g)
      in loc_assign pred (cumsum (map observation.measure (filter pred df))) df)"

text \<open>Lines 68 to 74.\<close>

definition add_y :: "bool \<Rightarrow> observation list \<Rightarrow> series_row list" where
  "add_y cumulative df =
     (if cumulative then map (\<lambda>r. with_y r (observation.measure r)) df
      else foldl cumulate_group (map (\<lambda>r. with_y r 0) df)
             (unique (map observation.group_id df)))"

text \<open>\<open>groupby\<close> visits the groups in ascending order of the key.\<close>

definition groupby_keys :: "string list \<Rightarrow> string list" where
  "groupby_keys ks = sort (remdups ks)"

text \<open>
  \<open>df.groupby(groupcol)[Y].max()\<close>: one entry per group, in key order, with the largest \<open>y\<close>
  of the group's rows (its peak).
\<close>

definition peak :: "series_row list \<Rightarrow> string \<Rightarrow> real" where
  "peak df g = Max (set (map series_row.y (filter (\<lambda>r. observation.group_id r = g) df)))"

definition group_max :: "series_row list \<Rightarrow> (string \<times> real) list" where
  "group_max df = map (\<lambda>g. (g, peak df g)) (groupby_keys (map observation.group_id df))"

text \<open>
  \<open>Series.nlargest(n)\<close> with the default \<open>keep='first'\<close>: nothing for \<open>n \<le> 0\<close>; otherwise
  the entries are ordered by descending value with a stable sort, so that among equal values
  the entry that stands first in the series wins, and the first \<open>n\<close> are taken. (When \<open>n\<close> is
  not below the length pandas sorts all entries another way; it returns the same entries, and
  only the set of their keys is used.)
\<close>

definition nlargest :: "int \<Rightarrow> (string \<times> real) list \<Rightarrow> (string \<times> real) list" where
  "nlargest n s = (if n \<le> 0 then [] else take (nat n) (sort_key (\<lambda>e. - snd e) s))"

text \<open>Lines 76 to 78.\<close>

definition top_k :: "int option \<Rightarrow> series_row list \<Rightarrow> series_row list" where
  "top_k k df =
     (case k of
        None \<Rightarrow> df
      | Some n \<Rightarrow>
          (let top_k_groups = map fst (nlargest n (group_max df))
           in filter (\<lambda>r. observation.group_id r \<in> set top_k_groups) df))"

section \<open>Start criterion\<close>

text \<open>
  Modelled from the spec: \<open>utils.days_between\<close> is not among the sources. The spec's example
  (anchor on day 10, intervention on day 15, \<open>lockdown_x = 5\<close>) fixes
  \<open>days_between(date_of_N, lockdown_date)\<close> as the second date minus the first, in days.
\<close>

definition days_between :: "int \<Rightarrow> int \<Rightarrow> int" where
  "days_between d1 d2 = d2 - d1"

text \<open>
  Modelled from the spec: \<open>start_criterion.DaysSinceNumReached\<close> is not among the sources.
  Following section 4.2 of the spec, the anchor of a group is the first date on which the
  threshold column is at least \<open>N\<close>, every row of the group gets \<open>x\<close>, its date minus the
  anchor, and a group that never reaches \<open>N\<close> is dropped.
\<close>

definition DaysSinceNumReached ::
    "real \<Rightarrow> (series_row \<Rightarrow> real) \<Rightarrow> series_row list \<Rightarrow> aligned_row list" where
  "DaysSinceNumReached N col df =
     concat (map (\<lambda>r.
       (case filter (\<lambda>s. observation.group_id s = observation.group_id r \<and> N \<le> col s) df of
          [] \<Rightarrow> []
        | reached \<Rightarrow>
            (let anchor = Min (set (map observation.date reached))
             in [\<lparr>observation.group_id = observation.group_id r, date = observation.date r,
                  measure = observation.measure r, y = series_row.y r,
                  date_of_N = anchor, x = observation.date r - anchor\<rparr>]))) df)"

section \<open>Intervention joiner\<close>

text \<open>\<open>DataFrame.dropna\<close> on the intervention table: a row with a missing cell is dropped.\<close>

fun complete :: "intervention \<Rightarrow> (string \<times> int \<times> string) option" where
  "complete e =
     (case (intervention.group_id e, intervention.lockdown_date e, intervention.lockdown_type e) of
        (Some g, Some d, Some t) \<Rightarrow> Some (g, d, t)
      | _ \<Rightarrow> None)"

definition dropna :: "intervention list \<Rightarrow> (string \<times> int \<times> string) list" where
  "dropna q = List.map_filter complete q"

text \<open>
  \<open>DataFrame.merge\<close> on the group column. The inner join pairs every left row with every
  right row of its group; the left join keeps a left row without a partner, with missing
  cells for the right columns. Within a group the pairs stand in left-major row order.
\<close>

definition merge_inner ::
    "('a \<Rightarrow> string) \<Rightarrow> ('b \<Rightarrow> string) \<Rightarrow> ('a \<Rightarrow> 'b \<Rightarrow> 'c) \<Rightarrow> 'a list \<Rightarrow> 'b list \<Rightarrow> 'c list" where
  "merge_inner kl kr row ls rs =
     concat (map (\<lambda>l. map (row l) (filter (\<lambda>r. kr r = kl l) rs)) ls)"

definition merge_left ::
    "('a \<Rightarrow> string) \<Rightarrow> ('b \<Rightarrow> string) \<Rightarrow> ('a \<Rightarrow> 'b option \<Rightarrow> 'c) \<Rightarrow> 'a list \<Rightarrow> 'b list \<Rightarrow> 'c list" where
  "merge_left kl kr row ls rs =
     concat (map (\<lambda>l.
       (case filter (\<lambda>r. kr r = kl l) rs of
          [] \<Rightarrow> [row l None]
        | ms \<Rightarrow> map (\<lambda>m. row l (Some m)) ms)) ls)"

text \<open>
  \<open>idxmin\<close> and \<open>idxmax\<close> of a column in_domain a selection of rows: the first row that attains
  the minimum (maximum); rows whose cell is missing are skipped.
\<close>

fun idxmin :: "('a \<Rightarrow> int) \<Rightarrow> 'a list \<Rightarrow> 'a option" where
  "idxmin col [] = None"
| "idxmin col (r # rs) =
     (case idxmin col rs of
        None \<Rightarrow> Some r
      | Some m \<Rightarrow> if col r \<le> col m then Some r else Some m)"

fun idxmax :: "('a \<Rightarrow> int option) \<Rightarrow> 'a list \<Rightarrow> (int \<times> 'a) option" where
  "idxmax col [] = None"
| "idxmax col (r # rs) =
     (case col r of
        None \<Rightarrow> idxmax col rs
      | Some v \<Rightarrow>
          (case idxmax col rs of
             None \<Rightarrow> Some (v, r)
           | Some (w, m) \<Rightarrow> if w \<le> v then Some (v, r) else Some (w, m)))"

text \<open>
  Lines 82 to 86: the intervention rows without a missing cell, each paired with the anchor
  date of every row of its group in the aligned table. A row of the result is the group,
  the intervention's date and type, and \<open>date_of_N\<close>.
\<close>

definition merge_date_of_N ::
    "intervention list \<Rightarrow> aligned_row list \<Rightarrow> (string \<times> int \<times> string \<times> int) list" where
  "merge_date_of_N q df =
     merge_inner fst observation.group_id
       (\<lambda>(g, d, t) a. (g, d, t, aligned_row.date_of_N a)) (dropna q) df"

text \<open>
  Line 87: \<open>apply\<close> computes the offset of every row and the result is assigned to the column
  \<open>lockdown_x\<close>. On a table without rows \<open>DataFrame.apply(..., axis=1)\<close> returns a table, not
  a column, and the assignment raises \<open>ValueError\<close>: the method then returns no table.
\<close>

datatype error = ValueError

definition lockdown_x_of :: "string \<times> int \<times> string \<times> int \<Rightarrow> quarantine_row" where
  "lockdown_x_of = (\<lambda>(g, d, t, n).
     \<lparr>quarantine_row.group_id = g, lockdown_date = d, lockdown_type = t, date_of_N = n,
      lockdown_x = days_between n d\<rparr>)"

definition with_lockdown_x :: "(string \<times> int \<times> string \<times> int) list \<Rightarrow> error + quarantine_row list" where
  "with_lockdown_x m = (if m = [] then Inl ValueError else Inr (map lockdown_x_of m))"

text \<open>Lines 90 and 91: only the earliest intervention after the anchor is retained.\<close>

definition retain_earliest :: "quarantine_row list \<Rightarrow> quarantine_row list" where
  "retain_earliest q =
     (let q1 = filter (\<lambda>e. 0 < quarantine_row.lockdown_x e) q
      in List.map_filter
           (\<lambda>g. idxmin quarantine_row.lockdown_x (filter (\<lambda>e. quarantine_row.group_id e = g) q1))
           (groupby_keys (map quarantine_row.group_id q1)))"

text \<open>Line 93: the left join of the retained interventions onto the aligned rows.\<close>

definition join_lockdown :: "aligned_row list \<Rightarrow> quarantine_row list \<Rightarrow> chart_row list" where
  "join_lockdown df q =
     merge_left observation.group_id quarantine_row.group_id
       (\<lambda>a m. \<lparr>chart_row.group_id = observation.group_id a,
           date = Some (observation.date a), measure = Some (observation.measure a),
           y = Some (series_row.y a), date_of_N = Some (aligned_row.date_of_N a),
           x = Some (aligned_row.x a),
           lockdown_date = map_option quarantine_row.lockdown_date m,
           lockdown_type = map_option quarantine_row.lockdown_type m,
           lockdown_x = map_option quarantine_row.lockdown_x m,
           intercept = None, lockdown_y = None, lockdown_slope = NaN\<rparr>)
       df q"

text \<open>
  Lines 95 and 96: per group, the row with the largest \<open>x\<close> among the rows at or before the
  intervention; its \<open>y\<close> is the group's \<open>lockdown_y\<close>.
\<close>

definition df_lockdown_y :: "chart_row list \<Rightarrow> (string \<times> real option) list" where
  "df_lockdown_y df =
     (let before = filter (\<lambda>r. le_col (chart_row.x r) (chart_row.lockdown_x r)) df
      in List.map_filter
           (\<lambda>g. map_option (\<lambda>(v, r). (g, chart_row.y r))
                  (idxmax chart_row.x (filter (\<lambda>r. chart_row.group_id r = g) before)))
           (groupby_keys (map chart_row.group_id before)))"

text \<open>
  Line 97: per group, the first value of \<open>y\<close> that is not missing among the rows with
  \<open>x == 0\<close>; it is the group's \<open>intercept\<close>.
\<close>

definition first_valid :: "'a option list \<Rightarrow> 'a option" where
  "first_valid vs = (case List.map_filter (\<lambda>v. v) vs of [] \<Rightarrow> None | v # _ \<Rightarrow> Some v)"

definition df_intercept :: "chart_row list \<Rightarrow> (string \<times> real option) list" where
  "df_intercept df =
     (let at0 = filter (\<lambda>r. chart_row.x r = Some 0) df
      in map (\<lambda>g. (g, first_valid (map chart_row.y (filter (\<lambda>r. chart_row.group_id r = g) at0))))
           (groupby_keys (map chart_row.group_id at0)))"

text \<open>Lines 98 to 107: both per-group values are joined back onto every row of the group.\<close>

definition join_intercept :: "chart_row list \<Rightarrow> (string \<times> real option) list \<Rightarrow> chart_row list" where
  "join_intercept df t =
     merge_left chart_row.group_id fst
       (\<lambda>r m. r\<lparr>intercept := (case m of None \<Rightarrow> None | Some (g, v) \<Rightarrow> v)\<rparr>) df t"

definition join_lockdown_y :: "chart_row list \<Rightarrow> (string \<times> real option) list \<Rightarrow> chart_row list" where
  "join_lockdown_y df t =
     merge_left chart_row.group_id fst
       (\<lambda>r m. r\<lparr>lockdown_y := (case m of None \<Rightarrow> None | Some (g, v) \<Rightarrow> v)\<rparr>) df t"

text \<open>Line 108: \<open>np.exp(np.log(df.lockdown_y / df.intercept) / df.lockdown_x)\<close>, row by row.\<close>

definition slope :: "real option \<Rightarrow> real option \<Rightarrow> int option \<Rightarrow> fval" where
  "slope ly ic lx = np_exp (fdiv (np_log (fdiv (of_col ly) (of_col ic))) (of_int_col lx))"

definition add_lockdown_slope :: "chart_row list \<Rightarrow> chart_row list" where
  "add_lockdown_slope df =
     map (\<lambda>r. r\<lparr>lockdown_slope := slope (lockdown_y r) (intercept r) (chart_row.lockdown_x r)\<rparr>) df"

text \<open>
  Lines 116 and 117: \<open>groupby(groupcol).max()\<close> takes, per group and per column, the largest
  value that is not missing; of its columns only the group, \<open>lockdown_x\<close> and
  \<open>lockdown_type\<close> are kept, and \<open>x\<close> is set to \<open>lockdown_x\<close>. Appended to the table
  (line 118), such a row has a missing cell in every other column.
\<close>

definition col_max :: "('a::linorder) option list \<Rightarrow> 'a option" where
  "col_max vs = (case List.map_filter (\<lambda>v. v) vs of [] \<Rightarrow> None | w # ws \<Rightarrow> Some (Max (set (w # ws))))"

definition new_rows :: "chart_row list \<Rightarrow> chart_row list" where
  "new_rows df =
     map (\<lambda>g.
       (let rows = filter (\<lambda>r. chart_row.group_id r = g) df;
            lx = col_max (map chart_row.lockdown_x rows)
        in \<lparr>chart_row.group_id = g, date = None, measure = None, y = None, date_of_N = None,
             x = lx, lockdown_date = None,
             lockdown_type = col_max (map chart_row.lockdown_type rows),
             lockdown_x = lx, intercept = None, lockdown_y = None, lockdown_slope = NaN\<rparr>))
       (groupby_keys (map chart_row.group_id df))"

text \<open>
  Lines 90 to 108, on the intervention table with its offsets: the joined table, before the
  new rows are appended.
\<close>

definition joined :: "quarantine_row list \<Rightarrow> aligned_row list \<Rightarrow> chart_row list" where
  "joined Q df =
     (let df1 = join_lockdown df (retain_earliest Q);
          df2 = join_intercept df1 (df_intercept df1);
          df3 = join_lockdown_y df2 (df_lockdown_y df1)
      in add_lockdown_slope df3)"

text \<open>Lines 81 to 118: the error of line 87 ends the method, otherwise the rows are appended.\<close>

definition join_quarantine :: "intervention list \<Rightarrow> aligned_row list \<Rightarrow> error + chart_row list" where
  "join_quarantine q df =
     (case with_lockdown_x (merge_date_of_N q df) of
        Inl e \<Rightarrow> Inl e
      | Inr Q \<Rightarrow> (let df4 = joined Q df in Inr (df4 @ new_rows df4)))"

section \<open>Domain clipper and the whole pipeline\<close>

text \<open>Lines 120 to 125.\<close>

definition in_domain :: "real \<times> real \<Rightarrow> real option \<Rightarrow> bool" where
  "in_domain limits v = (le_col (Some (fst limits)) v \<and> le_col v (Some (snd limits)))"

definition clip_x :: "(real \<times> real) option \<Rightarrow> chart_row list \<Rightarrow> chart_row list" where
  "clip_x limits df =
     (case limits of
        None \<Rightarrow> df
      | Some d \<Rightarrow> filter (\<lambda>r. in_domain d (map_option of_int (chart_row.x r))) df)"

definition clip_y :: "(real \<times> real) option \<Rightarrow> chart_row list \<Rightarrow> chart_row list" where
  "clip_y limits df =
     (case limits of
        None \<Rightarrow> df
      | Some d \<Rightarrow> filter (\<lambda>r. in_domain d (chart_row.y r)) df)"

definition clip :: "(real \<times> real) option \<Rightarrow> (real \<times> real) option \<Rightarrow> chart_row list \<Rightarrow> chart_row list" where
  "clip xdom ydom df = clip_y ydom (clip_x xdom df)"

text \<open>
  Without an intervention table the aligned table goes to the clipper as it is; it has no
  lockdown columns, which the chart table shows as missing cells.
\<close>

definition no_quarantine :: "aligned_row list \<Rightarrow> chart_row list" where
  "no_quarantine df = join_lockdown df []"

definition preprocess_df :: "chart \<Rightarrow> observation list \<Rightarrow> error + chart_row list" where
  "preprocess_df c df0 =
     (let df1 = add_y (ycol_is_cumulative c) df0;
          df2 = top_k (top_k_groups c) df1;
          df3 = start_criterion c df2
      in (case quarantine_df c of
            None \<Rightarrow> Inr (clip (xdomain c) (ydomain c) (no_quarantine df3))
          | Some q \<Rightarrow>
              (case join_quarantine q df3 of
                 Inl e \<Rightarrow> Inl e
               | Inr df4 \<Rightarrow> Inr (clip (xdomain c) (ydomain c) df4))))"

section \<open>The join where line 87 does not raise\<close>

text \<open>
  The intervention table with its offsets and the table of the join, as the code computes
  them when the inner join has a row. The lemmas about the join are stated on them;
  \<open>join_quarantine\<close> returns \<open>join_table\<close> exactly when it returns a table.
\<close>

definition offsets :: "intervention list \<Rightarrow> aligned_row list \<Rightarrow> quarantine_row list" where
  "offsets q df = map lockdown_x_of (merge_date_of_N q df)"

definition join_table :: "intervention list \<Rightarrow> aligned_row list \<Rightarrow> chart_row list" where
  "join_table q df = (let df4 = joined (offsets q df) df in df4 @ new_rows df4)"

section \<open>The spec's own wording, for comparison with the code\<close>

text \<open>
  Section 4.1 of the spec: the running sum of the raw measure within each group ordered by
  date. For a row this is the sum of the measures of the rows of its group dated on or
  before it.
\<close>

definition running_sum_by_date :: "observation list \<Rightarrow> observation \<Rightarrow> real" where
  "running_sum_by_date df r =
     sum_list (map observation.measure
       (filter (\<lambda>s. observation.group_id s = observation.group_id r
                  \<and> observation.date s \<le> observation.date r) df))"

text \<open>
  Section 4.1 of the spec: the groups are ranked by their maximum \<open>y\<close>, descending, ties
  broken by stable input order, and the first \<open>K\<close> are retained.
\<close>

definition spec_top_groups :: "nat \<Rightarrow> series_row list \<Rightarrow> string list" where
  "spec_top_groups K df =
     take K (sort_key (\<lambda>g. - peak df g) (unique (map observation.group_id df)))"

text \<open>
  The order in which the code ranks the entries of \<open>group_max\<close>: by descending peak, and
  among equal peaks by ascending group key. It is used to state the properties of
  \<open>nlargest\<close>.
\<close>

definition ranks_before :: "string \<times> real \<Rightarrow> string \<times> real \<Rightarrow> bool" where
  "ranks_before a b = (snd b < snd a \<or> (snd a = snd b \<and> fst a < fst b))"

text \<open>
  Section 8 of the spec: \<open>lockdown_slope^lockdown_x * intercept\<close> equals \<open>lockdown_y\<close>,
  evaluated for a row in numpy's arithmetic.
\<close>

definition slope_equation_holds :: "chart_row \<Rightarrow> bool" where
  "slope_equation_holds r =
     (case chart_row.lockdown_x r of
        None \<Rightarrow> False
      | Some n \<Rightarrow>
          0 \<le> n \<and> fmul (fpow (lockdown_slope r) (nat n)) (of_col (intercept r)) = of_col (lockdown_y r))"

section \<open>Example tables\<close>

text \<open>
  Concrete tables on which the properties below are evaluated. \<open>aligned\<close>, \<open>event\<close>,
  \<open>obs\<close> and \<open>series\<close> build one row of a table; \<open>synthetic\<close> is a row as the join
  appends it. In \<open>ex_aligned\<close> group A reaches its anchor on day 10 and group B on day 3;
  \<open>ex_quarantine\<close> has three dated interventions for A (one before the anchor), one for
  B before its anchor and one for B without a type. \<open>ex_chart\<close> is configured the way
  the build script configures its charts.
\<close>

definition aligned :: "string \<Rightarrow> int \<Rightarrow> real \<Rightarrow> int \<Rightarrow> aligned_row" where
  "aligned g d v anchor =
     \<lparr>observation.group_id = g, date = d, measure = v, y = v, date_of_N = anchor, x = d - anchor\<rparr>"

definition event :: "string \<Rightarrow> int \<Rightarrow> string \<Rightarrow> intervention" where
  "event g d t = \<lparr>intervention.group_id = Some g, lockdown_date = Some d, lockdown_type = Some t\<rparr>"

definition ex_aligned :: "aligned_row list" where
  "ex_aligned = [aligned ''A'' 10 50 10, aligned ''A'' 20 200 10, aligned ''B'' 3 7 3]"

definition ex_quarantine :: "intervention list" where
  "ex_quarantine = [event ''A'' 15 ''full'', event ''A'' 12 ''partial'', event ''A'' 9 ''early'',
     event ''B'' 1 ''advice'',
     \<lparr>intervention.group_id = Some ''B'', lockdown_date = Some 8, lockdown_type = None\<rparr>]"

definition synthetic :: "string \<Rightarrow> int option \<Rightarrow> string option \<Rightarrow> chart_row" where
  "synthetic g lx t = \<lparr>chart_row.group_id = g, date = None, measure = None, y = None,
     date_of_N = None, x = lx, lockdown_date = None, lockdown_type = t, lockdown_x = lx,
     intercept = None, lockdown_y = None, lockdown_slope = NaN\<rparr>"

definition obs :: "string \<Rightarrow> int \<Rightarrow> real \<Rightarrow> observation" where
  "obs g d v = \<lparr>observation.group_id = g, date = d, measure = v\<rparr>"

definition unsorted_observations :: "observation list" where
  "unsorted_observations = [obs ''A'' 2 1, obs ''A'' 1 10]"

definition ex_observations :: "observation list" where
  "ex_observations = [obs ''A'' 8 10, obs ''B'' 3 7, obs ''A'' 10 40, obs ''A'' 20 150]"

definition series :: "string \<Rightarrow> int \<Rightarrow> real \<Rightarrow> series_row" where
  "series g d v = \<lparr>observation.group_id = g, date = d, measure = v, y = v\<rparr>"

definition tied_series :: "series_row list" where
  "tied_series = [series ''B'' 1 5, series ''A'' 1 5]"

definition ex_series :: "series_row list" where
  "ex_series = [series ''C'' 1 5, series ''A'' 1 5, series ''B'' 1 9, series ''A'' 2 3, series ''D'' 1 2]"

definition ex_chart :: chart where
  "ex_chart = \<lparr>ycol_is_cumulative = False, top_k_groups = Some 30,
     start_criterion = DaysSinceNumReached 50 series_row.y,
     quarantine_df = Some ex_quarantine, xdomain = Some (0, 60), ydomain = Some (50, 1000000)\<rparr>"

definition zero_intercept_aligned :: "aligned_row list" where
  "zero_intercept_aligned = [aligned ''A'' 10 0 10, aligned ''A'' 11 3 10]"

definition zero_lockdown_y_aligned :: "aligned_row list" where
  "zero_lockdown_y_aligned = [aligned ''A'' 10 50 10, aligned ''A'' 11 0 10]"

definition next_day_quarantine :: "intervention list" where
  "next_day_quarantine = [event ''A'' 11 ''full'']"

section \<open>Properties of the table operations\<close>

lemma set_groupby_keys [simp]: "set (groupby_keys ks) = set ks"
  by (simp add: groupby_keys_def)

lemma distinct_groupby_keys [simp]: "distinct (groupby_keys ks)"
  by (simp add: groupby_keys_def)

lemma sorted_groupby_keys [simp]: "sorted (groupby_keys ks)"
  by (simp add: groupby_keys_def)

lemma filter_key_distinct:
  "distinct (map k rs) \<Longrightarrow>
   filter (\<lambda>r. k r = g) rs = (case find (\<lambda>r. k r = g) rs of None \<Rightarrow> [] | Some m \<Rightarrow> [m])"
proof (induction rs)
  case Nil
  then show ?case by simp
next
  case (Cons r rs)
  show ?case
  proof (cases "k r = g")
    case True
    with Cons.prems have "\<forall>s\<in>set rs. k s \<noteq> g"
      by (auto simp: image_iff)
    then have "filter (\<lambda>r. k r = g) rs = []"
      by (simp add: filter_empty_conv)
    with True show ?thesis by simp
  next
    case False
    with Cons show ?thesis by simp
  qed
qed

lemma merge_left_distinct:
  assumes "distinct (map kr rs)"
  shows "merge_left kl kr row ls rs = map (\<lambda>l. row l (find (\<lambda>r. kr r = kl l) rs)) ls"
proof -
  have "(case filter (\<lambda>r. kr r = kl l) rs of [] \<Rightarrow> [row l None] | ms \<Rightarrow> map (\<lambda>m. row l (Some m)) ms)
        = [row l (find (\<lambda>r. kr r = kl l) rs)]" for l
    by (simp add: filter_key_distinct [OF assms] split: option.split)
  then show ?thesis
    by (simp add: merge_left_def)
qed

lemma idxmin_None [simp]: "idxmin col rs = None \<longleftrightarrow> rs = []"
  by (induction rs) (auto split: option.splits)

lemma idxmin_Some:
  "idxmin col rs = Some m \<Longrightarrow> m \<in> set rs \<and> (\<forall>r\<in>set rs. col m \<le> col r)"
proof (induction rs arbitrary: m)
  case Nil
  then show ?case by simp
next
  case (Cons r rs)
  show ?case
  proof (cases "idxmin col rs")
    case None
    with Cons.prems show ?thesis by simp
  next
    case (Some m')
    with Cons.IH have "m' \<in> set rs" "\<forall>r\<in>set rs. col m' \<le> col r" by auto
    with Cons.prems Some show ?thesis by (auto split: if_splits)
  qed
qed

lemma idxmax_Some:
  "idxmax col rs = Some (v, m) \<Longrightarrow>
     m \<in> set rs \<and> col m = Some v \<and> (\<forall>r\<in>set rs. \<forall>w. col r = Some w \<longrightarrow> w \<le> v)"
proof (induction rs arbitrary: v m)
  case Nil
  then show ?case by simp
next
  case (Cons r rs)
  show ?case
  proof (cases "col r")
    case None
    with Cons show ?thesis by auto
  next
    case (Some u)
    show ?thesis
    proof (cases "idxmax col rs")
      case None
      have "\<forall>s\<in>set rs. col s = None" using None
        by (induction rs) (auto split: option.splits if_splits)
      with Cons.prems Some None show ?thesis by auto
    next
      case (Some p)
      obtain w m' where p: "p = (w, m')" by (cases p)
      with Some Cons.IH have "m' \<in> set rs" "col m' = Some w"
        "\<forall>r\<in>set rs. \<forall>u. col r = Some u \<longrightarrow> u \<le> w" by auto
      with Cons.prems \<open>col r = Some u\<close> Some p show ?thesis
        by (auto split: if_splits)
    qed
  qed
qed

lemma idxmax_None: "idxmax col rs = None \<longleftrightarrow> (\<forall>r\<in>set rs. col r = None)"
  by (induction rs) (auto split: option.splits if_splits)

lemma set_map_filter': "set (List.map_filter f xs) = {y. \<exists>x\<in>set xs. f x = Some y}"
  by (induction xs) (auto simp: List.map_filter_simps split: option.splits)

lemma map_filter_keys:
  assumes "\<And>g. g \<in> set gs \<Longrightarrow> \<exists>e. f g = Some e \<and> k e = g"
  shows "map k (List.map_filter f gs) = gs"
  using assms
proof (induction gs)
  case Nil
  then show ?case by (simp add: List.map_filter_simps)
next
  case (Cons g gs)
  from Cons.prems [of g] obtain e where "f g = Some e" "k e = g" by auto
  moreover have "map k (List.map_filter f gs) = gs"
    using Cons by simp
  ultimately show ?case by (simp add: List.map_filter_simps)
qed

lemma map_filter_keys_distinct:
  assumes "\<And>g e. f g = Some e \<Longrightarrow> k e = g" "distinct gs"
  shows "distinct (map k (List.map_filter f gs))"
  using assms
proof (induction gs)
  case Nil
  then show ?case by (simp add: List.map_filter_simps)
next
  case (Cons g gs)
  then show ?case
    by (auto simp: List.map_filter_simps set_map_filter' split: option.splits)
qed

section \<open>Properties of the series normalizer\<close>

lemma loc_assign_Nil [simp]: "loc_assign p [] rs = rs"
  by (cases rs) simp_all

lemma loc_assign_skip [simp]: "\<not> p r \<Longrightarrow> loc_assign p vs (r # rs) = r # loc_assign p vs rs"
  by (cases vs) simp_all

lemma loc_assign_length [simp]: "length (loc_assign p vs rs) = length rs"
  by (induction p vs rs rule: loc_assign.induct) simp_all

lemma loc_assign_cumsum_nth:
  "k < length rs \<Longrightarrow>
   loc_assign p (cumsum_from acc (map observation.measure (filter p rs))) rs ! k =
     (if p (rs ! k)
      then (rs ! k)\<lparr>series_row.y := acc + sum_list (map observation.measure (filter p (take (Suc k) rs)))\<rparr>
      else rs ! k)"
proof (induction rs arbitrary: acc k)
  case Nil
  then show ?case by simp
next
  case (Cons r rs)
  show ?case
  proof (cases k)
    case 0
    then show ?thesis by simp
  next
    case (Suc j)
    with Cons.prems have j: "j < length rs" by simp
    show ?thesis
    proof (cases "p r")
      case True
      with Suc Cons.IH [OF j, of "acc + observation.measure r"] show ?thesis
        by (simp add: add.assoc)
    next
      case False
      with Suc Cons.IH [OF j, of acc] show ?thesis by simp
    qed
  qed
qed

lemma set_unique_from: "set (unique_from seen vs) = set vs - set seen"
  by (induction vs arbitrary: seen) auto

lemma set_unique [simp]: "set (unique vs) = set vs"
  by (simp add: unique_def set_unique_from)

lemma distinct_unique_from: "distinct (unique_from seen vs)"
  by (induction vs arbitrary: seen) (auto simp: set_unique_from)

lemma map_filter_take_cong:
  "map f S = map f' D \<Longrightarrow> map m S = map m' D \<Longrightarrow>
   map m (filter (\<lambda>r. f r = g) (take n S)) = map m' (filter (\<lambda>r. f' r = g) (take n D))"
proof (induction S arbitrary: D n)
  case Nil
  then show ?case by simp
next
  case (Cons s S)
  then obtain d D' where D: "D = d # D'" by (cases D) auto
  with Cons.prems have "f s = f' d" "m s = m' d" "map f S = map f' D'" "map m S = map m' D'"
    by simp_all
  with Cons.IH [of D'] D show ?case by (cases n) simp_all
qed

lemma cumulate_group_nth:
  assumes "map observation.group_id S = map observation.group_id df"
    and "map observation.measure S = map observation.measure df"
    and "k < length df"
  shows "cumulate_group S g ! k =
     (if observation.group_id (df ! k) = g
      then (S ! k)\<lparr>series_row.y := sum_list (map observation.measure
                (filter (\<lambda>r. observation.group_id r = g) (take (Suc k) df)))\<rparr>
      else S ! k)"
proof -
  from assms(1) have len: "length S = length df" by (rule map_eq_imp_length_eq)
  with assms(3) have k: "k < length S" by simp
  have g: "observation.group_id (S ! k) = observation.group_id (df ! k)"
    using assms(1) k len by (metis nth_map)
  have "filter (\<lambda>r. observation.group_id r = g) S = filter (\<lambda>r. observation.group_id r = g) (take (length S) S)"
    by simp
  have sum: "map observation.measure (filter (\<lambda>r. observation.group_id r = g) (take n S)) =
        map observation.measure (filter (\<lambda>r. observation.group_id r = g) (take n df))" for n
    using assms(1,2) by (rule map_filter_take_cong)
  show ?thesis
    unfolding cumulate_group_def Let_def cumsum_def
    by (simp add: loc_assign_cumsum_nth [OF k] g sum)
qed

lemma cumulate_group_length [simp]: "length (cumulate_group S g) = length S"
  by (simp add: cumulate_group_def Let_def)

lemma foldl_cumulate_group_length [simp]: "length (foldl cumulate_group S gs) = length S"
  by (induction gs arbitrary: S) simp_all

lemma add_y_length: "length (add_y c df) = length df"
  by (simp add: add_y_def)

lemma foldl_cumulate_group:
  assumes "length S = length df"
    and "\<forall>k<length df. S ! k = with_y (df ! k)
           (if observation.group_id (df ! k) \<in> G
            then sum_list (map observation.measure
                (filter (\<lambda>r. observation.group_id r = observation.group_id (df ! k)) (take (Suc k) df)))
            else 0)"
    and "k < length df"
  shows "foldl cumulate_group S gs ! k = with_y (df ! k)
           (if observation.group_id (df ! k) \<in> G \<union> set gs
            then sum_list (map observation.measure
                (filter (\<lambda>r. observation.group_id r = observation.group_id (df ! k)) (take (Suc k) df)))
            else 0)"
  using assms
proof (induction gs arbitrary: S G)
  case Nil
  then show ?case by simp
next
  case (Cons g gs)
  have grp: "map observation.group_id S = map observation.group_id df"
    using Cons.prems(1,2) by (intro nth_equalityI) (simp_all add: with_y_def)
  have mea: "map observation.measure S = map observation.measure df"
    using Cons.prems(1,2) by (intro nth_equalityI) (simp_all add: with_y_def)
  have step: "\<forall>k<length df. cumulate_group S g ! k = with_y (df ! k)
           (if observation.group_id (df ! k) \<in> insert g G
            then sum_list (map observation.measure
                (filter (\<lambda>r. observation.group_id r = observation.group_id (df ! k)) (take (Suc k) df)))
            else 0)"
  proof (intro allI impI)
    fix j assume j: "j < length df"
    from Cons.prems(2) j have Sj: "S ! j = with_y (df ! j)
           (if observation.group_id (df ! j) \<in> G
            then sum_list (map observation.measure
                (filter (\<lambda>r. observation.group_id r = observation.group_id (df ! j)) (take (Suc j) df)))
            else 0)" by simp
    show "cumulate_group S g ! j = with_y (df ! j)
           (if observation.group_id (df ! j) \<in> insert g G
            then sum_list (map observation.measure
                (filter (\<lambda>r. observation.group_id r = observation.group_id (df ! j)) (take (Suc j) df)))
            else 0)"
      unfolding cumulate_group_nth [OF grp mea j] using Sj
      by (auto simp: with_y_def)
  qed
  have "foldl cumulate_group (cumulate_group S g) gs ! k = with_y (df ! k)
           (if observation.group_id (df ! k) \<in> insert g G \<union> set gs
            then sum_list (map observation.measure
                (filter (\<lambda>r. observation.group_id r = observation.group_id (df ! k)) (take (Suc k) df)))
            else 0)"
    using Cons.prems(1,3) step by (intro Cons.IH) simp_all
  then show ?case by simp
qed

lemma add_y_running_nth:
  assumes "k < length df"
  shows "add_y False df ! k = with_y (df ! k)
     (sum_list (map observation.measure
        (filter (\<lambda>r. observation.group_id r = observation.group_id (df ! k)) (take (Suc k) df))))"
proof -
  have "foldl cumulate_group (map (\<lambda>r. with_y r 0) df) (unique (map observation.group_id df)) ! k =
     with_y (df ! k)
           (if observation.group_id (df ! k) \<in> {} \<union> set (unique (map observation.group_id df))
            then sum_list (map observation.measure
                (filter (\<lambda>r. observation.group_id r = observation.group_id (df ! k)) (take (Suc k) df)))
            else 0)"
    using assms by (intro foldl_cumulate_group) simp_all
  with assms show ?thesis by (simp add: add_y_def)
qed

lemmas add_y_eval = add_y_def cumulate_group_def cumsum_def unique_def with_y_def obs_def Let_def

lemma filter_by_date_take:
  assumes asc: "\<forall>i j. i < j \<and> j < length df
              \<and> observation.group_id (df ! i) = observation.group_id (df ! j)
            \<longrightarrow> observation.date (df ! i) < observation.date (df ! j)"
    and k: "k < length df"
  shows "filter (\<lambda>s. observation.group_id s = observation.group_id (df ! k)
                  \<and> observation.date s \<le> observation.date (df ! k)) df =
         filter (\<lambda>s. observation.group_id s = observation.group_id (df ! k)) (take (Suc k) df)"
proof -
  let ?P = "\<lambda>s. observation.group_id s = observation.group_id (df ! k)
                  \<and> observation.date s \<le> observation.date (df ! k)"
  have front: "filter ?P (take (Suc k) df) =
               filter (\<lambda>s. observation.group_id s = observation.group_id (df ! k)) (take (Suc k) df)"
  proof (rule filter_cong [OF refl])
    fix s assume "s \<in> set (take (Suc k) df)"
    then obtain i where i: "i < Suc k" "s = df ! i"
      unfolding in_set_conv_nth by auto
    show "?P s = (observation.group_id s = observation.group_id (df ! k))"
    proof (cases "i = k")
      case True
      with i show ?thesis by simp
    next
      case False
      with i have ik: "i < k" by simp
      show ?thesis
      proof (cases "observation.group_id (df ! i) = observation.group_id (df ! k)")
        case True
        with asc [rule_format, of i k] ik k
        have "observation.date (df ! i) < observation.date (df ! k)" by simp
        with True i show ?thesis by simp
      next
        case False
        with i show ?thesis by simp
      qed
    qed
  qed
  have rest: "filter ?P (drop (Suc k) df) = []"
  proof -
    have "\<not> ?P s" if "s \<in> set (drop (Suc k) df)" for s
    proof
      assume P: "?P s"
      from that obtain i where i: "i < length (drop (Suc k) df)" "drop (Suc k) df ! i = s"
        unfolding in_set_conv_nth by auto
      define j where "j = Suc k + i"
      from i k have j: "Suc k \<le> j" "j < length df" "s = df ! j"
        by (simp_all add: j_def)
      from j(1) have kj: "k < j" by simp
      from P j have "observation.group_id (df ! k) = observation.group_id (df ! j)" by simp
      with asc [rule_format, of k j] kj j
      have "observation.date (df ! k) < observation.date (df ! j)" by simp
      with P j show False by simp
    qed
    then show ?thesis by (simp add: filter_empty_conv)
  qed
  have "filter ?P df = filter ?P (take (Suc k) df @ drop (Suc k) df)" by simp
  also have "\<dots> = filter ?P (take (Suc k) df)"
    unfolding filter_append rest by simp
  finally show ?thesis using front by simp
qed

lemma distinct_map_insort_key:
  "distinct (map k (insort_key f a ys)) \<longleftrightarrow> k a \<notin> k ` set ys \<and> distinct (map k ys)"
  by (induction ys) (auto simp: set_insort_key)

lemma distinct_map_sort_key:
  "distinct (map k (sort_key f xs)) \<longleftrightarrow> distinct (map k xs)"
proof (induction xs)
  case Nil
  then show ?case by simp
next
  case (Cons a xs)
  have "distinct (map k (insort_key f a (sort_key f xs))) \<longleftrightarrow>
        k a \<notin> k ` set (sort_key f xs) \<and> distinct (map k (sort_key f xs))"
    by (simp only: distinct_map_insort_key)
  with Cons show ?case by simp
qed

lemma insort_ranks_before:
  assumes "sorted_wrt ranks_before ys" "\<forall>e\<in>set ys. fst a < fst e"
    and "sorted (map (\<lambda>e. - snd e) ys)"
  shows "sorted_wrt ranks_before (insort_key (\<lambda>e. - snd e) a ys)"
  using assms
proof (induction ys)
  case Nil
  then show ?case by simp
next
  case (Cons b ys)
  show ?case
  proof (cases "snd b \<le> snd a")
    case True
    have "ranks_before a e" if "e \<in> set (b # ys)" for e
    proof -
      from that Cons.prems(3) have "snd e \<le> snd b" by auto
      with True have "snd e \<le> snd a" by simp
      moreover from that Cons.prems(2) have "fst a < fst e" by auto
      ultimately show ?thesis by (auto simp: ranks_before_def)
    qed
    with True Cons.prems(1) show ?thesis by simp
  next
    case False
    then have ba: "ranks_before b a" by (simp add: ranks_before_def)
    from Cons.prems have "sorted_wrt ranks_before (insort_key (\<lambda>e. - snd e) a ys)"
      by (intro Cons.IH) simp_all
    with False ba Cons.prems(1) show ?thesis
      by (auto simp: set_insort_key)
  qed
qed

lemma sort_key_ranks_before:
  "sorted_wrt (\<lambda>a b. fst a < fst b) xs \<Longrightarrow> sorted_wrt ranks_before (sort_key (\<lambda>e. - snd e) xs)"
proof (induction xs)
  case Nil
  then show ?case by simp
next
  case (Cons a xs)
  then have "sorted_wrt ranks_before (sort_key (\<lambda>e. - snd e) xs)"
    and "\<forall>e\<in>set (sort_key (\<lambda>e. - snd e) xs). fst a < fst e"
    by simp_all
  then show ?case
    by (simp add: insort_ranks_before)
qed

lemma group_max_sorted: "sorted_wrt (\<lambda>a b. fst a < fst b) (group_max df)"
proof -
  have "sorted_wrt (<) (groupby_keys (map observation.group_id df))"
    by (simp add: groupby_keys_def strict_sorted_iff)
  then show ?thesis
    by (simp add: group_max_def sorted_wrt_map)
qed

lemma group_max_fst: "map fst (group_max df) = groupby_keys (map observation.group_id df)"
  by (simp add: group_max_def comp_def)

lemma group_max_mem: "e \<in> set (group_max df) \<Longrightarrow> snd e = peak df (fst e)"
  by (auto simp: group_max_def)


lemma nlargest_subset: "set (nlargest K s) \<subseteq> set s"
  by (auto simp: nlargest_def dest: in_set_takeD)

lemma top_k_groups_subset:
  "fst ` set (nlargest K (group_max df)) \<subseteq> observation.group_id ` set df"
proof -
  have "fst ` set (group_max df) = observation.group_id ` set df"
    using group_max_fst [of df] by (metis set_groupby_keys set_map)
  with nlargest_subset [of K "group_max df"] show ?thesis by blast
qed

lemma top_k_groups:
  "observation.group_id ` set (top_k (Some K) df) = fst ` set (nlargest K (group_max df))"
proof (intro set_eqI iffI)
  fix g assume "g \<in> observation.group_id ` set (top_k (Some K) df)"
  then show "g \<in> fst ` set (nlargest K (group_max df))"
    by (auto simp: top_k_def Let_def)
next
  fix g assume g: "g \<in> fst ` set (nlargest K (group_max df))"
  with top_k_groups_subset [of K df] obtain r where "r \<in> set df" "observation.group_id r = g"
    by auto
  with g have "r \<in> set (top_k (Some K) df)"
    by (simp add: top_k_def Let_def)
  with \<open>observation.group_id r = g\<close> show "g \<in> observation.group_id ` set (top_k (Some K) df)"
    by auto
qed

lemma nlargest_distinct: "distinct (map fst (nlargest K (group_max df)))"
proof -
  have "distinct (map fst (sort_key (\<lambda>e. - snd e) (group_max df)))"
    by (simp add: distinct_map_sort_key group_max_fst)
  then show ?thesis
    by (simp add: nlargest_def take_map [symmetric] distinct_take)
qed

lemma nlargest_length:
  "length (nlargest K (group_max df)) = min (nat K) (card (observation.group_id ` set df))"
proof -
  have "length (group_max df) = card (observation.group_id ` set df)"
    using distinct_card [OF distinct_groupby_keys, of "map observation.group_id df"]
    by (simp add: group_max_def)
  then show ?thesis by (simp add: nlargest_def min.commute)
qed

lemma nlargest_ranks:
  assumes "a \<in> set (nlargest K (group_max df))"
    and "b \<in> set (group_max df)" "b \<notin> set (nlargest K (group_max df))"
  shows "ranks_before a b"
proof -
  let ?L = "sort_key (\<lambda>e. - snd e) (group_max df)"
  from assms(1) have K: "0 < K" and a: "a \<in> set (take (nat K) ?L)"
    by (auto simp: nlargest_def split: if_splits)
  with assms(3) have "b \<notin> set (take (nat K) ?L)" by (simp add: nlargest_def)
  moreover have "set ?L = set (take (nat K) ?L) \<union> set (drop (nat K) ?L)"
    by (metis append_take_drop_id set_append)
  moreover from assms(2) have "b \<in> set ?L" by simp
  ultimately have b: "b \<in> set (drop (nat K) ?L)" by blast
  have "sorted_wrt ranks_before (take (nat K) ?L @ drop (nat K) ?L)"
    using sort_key_ranks_before [OF group_max_sorted, of df] by simp
  with a b show ?thesis unfolding sorted_wrt_append by blast
qed

section \<open>Properties of the intervention join\<close>

lemma retain_earliest_keys:
  "map quarantine_row.group_id (retain_earliest Q) =
     groupby_keys (map quarantine_row.group_id (filter (\<lambda>e. 0 < quarantine_row.lockdown_x e) Q))"
proof -
  define q1 where "q1 = filter (\<lambda>e. 0 < quarantine_row.lockdown_x e) Q"
  have "\<exists>e. idxmin quarantine_row.lockdown_x (filter (\<lambda>e. quarantine_row.group_id e = g) q1) = Some e
           \<and> quarantine_row.group_id e = g"
    if "g \<in> set (groupby_keys (map quarantine_row.group_id q1))" for g
  proof -
    from that have "filter (\<lambda>e. quarantine_row.group_id e = g) q1 \<noteq> []"
      by (auto simp: filter_empty_conv)
    then obtain e where e: "idxmin quarantine_row.lockdown_x (filter (\<lambda>e. quarantine_row.group_id e = g) q1) = Some e"
      by (cases "idxmin quarantine_row.lockdown_x (filter (\<lambda>e. quarantine_row.group_id e = g) q1)") auto
    from idxmin_Some [OF e] have "quarantine_row.group_id e = g" by simp
    with e show ?thesis by simp
  qed
  then show ?thesis
    unfolding retain_earliest_def Let_def q1_def [symmetric]
    by (rule map_filter_keys)
qed

lemma retain_earliest_distinct: "distinct (map quarantine_row.group_id (retain_earliest Q))"
  by (simp add: retain_earliest_keys)

lemma retain_earliest_mem:
  assumes "e \<in> set (retain_earliest Q)"
  shows "e \<in> set Q \<and> 0 < quarantine_row.lockdown_x e \<and>
         (\<forall>e'\<in>set Q. quarantine_row.group_id e' = quarantine_row.group_id e \<and> 0 < quarantine_row.lockdown_x e'
             \<longrightarrow> quarantine_row.lockdown_x e \<le> quarantine_row.lockdown_x e')"
proof -
  define q1 where "q1 = filter (\<lambda>e. 0 < quarantine_row.lockdown_x e) Q"
  from assms obtain g where
    e: "idxmin quarantine_row.lockdown_x (filter (\<lambda>e. quarantine_row.group_id e = g) q1) = Some e"
    unfolding retain_earliest_def Let_def q1_def [symmetric] by (auto simp: set_map_filter')
  from idxmin_Some [OF e] show ?thesis by (auto simp: q1_def)
qed

lemma retain_earliest_find_None:
  "find (\<lambda>e. quarantine_row.group_id e = g) (retain_earliest Q) = None \<longleftrightarrow>
     (\<forall>e\<in>set Q. quarantine_row.group_id e = g \<longrightarrow> quarantine_row.lockdown_x e \<le> 0)"
proof -
  have "find (\<lambda>e. quarantine_row.group_id e = g) (retain_earliest Q) = None \<longleftrightarrow>
        g \<notin> set (map quarantine_row.group_id (retain_earliest Q))"
    by (auto simp: find_None_iff)
  also have "\<dots> \<longleftrightarrow> (\<forall>e\<in>set Q. quarantine_row.group_id e = g \<longrightarrow> quarantine_row.lockdown_x e \<le> 0)"
    unfolding retain_earliest_keys by (auto simp: not_less)
  finally show ?thesis .
qed

lemma find_key_Some:
  "find (\<lambda>e. k e = g) rs = Some e \<Longrightarrow> e \<in> set rs \<and> k e = g"
  by (auto simp: find_Some_iff)

lemma join_lockdown_eq:
  "join_lockdown df (retain_earliest Q) =
     map (\<lambda>a. let m = find (\<lambda>e. quarantine_row.group_id e = observation.group_id a) (retain_earliest Q)
       in \<lparr>chart_row.group_id = observation.group_id a,
           date = Some (observation.date a), measure = Some (observation.measure a),
           y = Some (series_row.y a), date_of_N = Some (aligned_row.date_of_N a),
           x = Some (aligned_row.x a),
           lockdown_date = map_option quarantine_row.lockdown_date m,
           lockdown_type = map_option quarantine_row.lockdown_type m,
           lockdown_x = map_option quarantine_row.lockdown_x m,
           intercept = None, lockdown_y = None, lockdown_slope = NaN\<rparr>) df"
  unfolding join_lockdown_def
  by (simp add: merge_left_distinct [OF retain_earliest_distinct] Let_def)

lemma df_intercept_distinct: "distinct (map fst (df_intercept t))"
  by (simp add: df_intercept_def Let_def comp_def)

lemma df_lockdown_y_distinct: "distinct (map fst (df_lockdown_y t))"
  unfolding df_lockdown_y_def Let_def
  by (rule map_filter_keys_distinct) auto

lemma join_intercept_eq:
  "join_intercept df (df_intercept t) =
     map (\<lambda>r. r\<lparr>intercept := (case find (\<lambda>p. fst p = chart_row.group_id r) (df_intercept t) of
                                None \<Rightarrow> None | Some (g, v) \<Rightarrow> v)\<rparr>) df"
  unfolding join_intercept_def
  by (simp add: merge_left_distinct [OF df_intercept_distinct])

lemma join_lockdown_y_eq:
  "join_lockdown_y df (df_lockdown_y t) =
     map (\<lambda>r. r\<lparr>lockdown_y := (case find (\<lambda>p. fst p = chart_row.group_id r) (df_lockdown_y t) of
                                None \<Rightarrow> None | Some (g, v) \<Rightarrow> v)\<rparr>) df"
  unfolding join_lockdown_y_def
  by (simp add: merge_left_distinct [OF df_lockdown_y_distinct])

lemma joined_eq:
  "joined (offsets q df) df =
     (let df1 = join_lockdown df (retain_earliest (offsets q df))
      in map (\<lambda>r.
        (let ic = (case find (\<lambda>p. fst p = chart_row.group_id r) (df_intercept df1) of
                     None \<Rightarrow> None | Some (g, v) \<Rightarrow> v);
             ly = (case find (\<lambda>p. fst p = chart_row.group_id r) (df_lockdown_y df1) of
                     None \<Rightarrow> None | Some (g, v) \<Rightarrow> v)
         in r\<lparr>intercept := ic, lockdown_y := ly,
              lockdown_slope := slope ly ic (chart_row.lockdown_x r)\<rparr>)) df1)"
  unfolding joined_def Let_def
  by (simp add: join_intercept_eq join_lockdown_y_eq add_lockdown_slope_def comp_def)

lemma map_filter_id_const:
  "\<forall>v\<in>set vs. v = c \<Longrightarrow> List.map_filter (\<lambda>v. v) vs = (case c of None \<Rightarrow> [] | Some w \<Rightarrow> replicate (length vs) w)"
  by (induction vs) (auto simp: List.map_filter_simps split: option.splits)

lemma col_max_const:
  assumes "vs \<noteq> []" "\<forall>v\<in>set vs. v = c"
  shows "col_max vs = c"
proof (cases c)
  case None
  with assms show ?thesis by (simp add: col_max_def map_filter_id_const [OF assms(2)])
next
  case (Some w)
  from assms(1) obtain n where n: "length vs = Suc n" by (cases vs) auto
  have "set (replicate (Suc n) w) = {w}" by auto
  then have "Max (set (replicate (Suc n) w)) = w" by (simp del: set_replicate replicate_Suc)
  with Some n show ?thesis
    by (simp add: col_max_def map_filter_id_const [OF assms(2)] del: set_replicate)
qed

lemma joined_length: "length (joined (offsets q df) df) = length df"
  by (simp add: joined_eq join_lockdown_eq Let_def)

lemma joined_group_id:
  "map chart_row.group_id (joined (offsets q df) df) = map observation.group_id df"
  by (simp add: joined_eq join_lockdown_eq Let_def comp_def)

lemma joined_x: "map chart_row.x (joined (offsets q df) df) = map (\<lambda>a. Some (aligned_row.x a)) df"
  by (simp add: joined_eq join_lockdown_eq Let_def comp_def)

lemma joined_y: "map chart_row.y (joined (offsets q df) df) = map (\<lambda>a. Some (series_row.y a)) df"
  by (simp add: joined_eq join_lockdown_eq Let_def comp_def)

lemma joined_lockdown:
  assumes "r \<in> set (joined (offsets q df) df)"
  defines "m \<equiv> find (\<lambda>e. quarantine_row.group_id e = chart_row.group_id r)
                  (retain_earliest (offsets q df))"
  shows "chart_row.lockdown_x r = map_option quarantine_row.lockdown_x m"
    and "chart_row.lockdown_type r = map_option quarantine_row.lockdown_type m"
    and "chart_row.lockdown_date r = map_option quarantine_row.lockdown_date m"
    and "lockdown_slope r = slope (lockdown_y r) (intercept r) (chart_row.lockdown_x r)"
  using assms by (auto simp: joined_eq join_lockdown_eq Let_def)

lemma joined_lockdown_y_None:
  assumes "r \<in> set (joined (offsets q df) df)" "chart_row.lockdown_x r = None"
  shows "lockdown_y r = None"
proof -
  define R where "R = retain_earliest (offsets q df)"
  define df1 where "df1 = join_lockdown df R"
  define g where "g = chart_row.group_id r"
  have lx: "chart_row.lockdown_x s = map_option quarantine_row.lockdown_x (find (\<lambda>e. quarantine_row.group_id e = chart_row.group_id s) R)"
    if "s \<in> set df1" for s
    using that unfolding df1_def R_def by (auto simp: join_lockdown_eq Let_def)
  from assms(1) obtain r1 where r1: "r1 \<in> set df1" "chart_row.group_id r1 = g"
    "chart_row.lockdown_x r1 = chart_row.lockdown_x r"
    and ly: "lockdown_y r = (case find (\<lambda>p. fst p = g) (df_lockdown_y df1) of None \<Rightarrow> None | Some (g, v) \<Rightarrow> v)"
    unfolding g_def df1_def R_def by (auto simp: joined_eq Let_def)
  have none: "map_option quarantine_row.lockdown_x (find (\<lambda>e. quarantine_row.group_id e = g) R) = None"
    using lx [OF r1(1)] r1 assms(2) by simp
  have "g \<notin> fst ` set (df_lockdown_y df1)"
  proof
    assume "g \<in> fst ` set (df_lockdown_y df1)"
    then obtain s where "s \<in> set df1" "chart_row.group_id s = g"
      "le_col (chart_row.x s) (chart_row.lockdown_x s)"
      unfolding df_lockdown_y_def Let_def by (auto simp: set_map_filter')
    with lx [of s] none show False by (simp add: le_col_def split: option.splits)
  qed
  then have "find (\<lambda>p. fst p = g) (df_lockdown_y df1) = None"
    by (force simp: find_None_iff)
  with ly show ?thesis by simp
qed

lemma new_rows_mem:
  assumes "s \<in> set (new_rows t)"
  shows "chart_row.group_id s \<in> chart_row.group_id ` set t"
    and "chart_row.x s = chart_row.lockdown_x s"
    and "chart_row.lockdown_x s = col_max (map chart_row.lockdown_x (filter (\<lambda>r. chart_row.group_id r = chart_row.group_id s) t))"
    and "chart_row.lockdown_type s = col_max (map chart_row.lockdown_type (filter (\<lambda>r. chart_row.group_id r = chart_row.group_id s) t))"
    and "chart_row.y s = None" and "chart_row.date s = None" and "chart_row.measure s = None"
    and "chart_row.date_of_N s = None" and "chart_row.lockdown_date s = None"
    and "intercept s = None" and "lockdown_y s = None" and "lockdown_slope s = NaN"
  using assms by (auto simp: new_rows_def Let_def)

lemma new_rows_keys: "map chart_row.group_id (new_rows t) = groupby_keys (map chart_row.group_id t)"
  by (simp add: new_rows_def Let_def comp_def)

lemma new_rows_joined_lockdown:
  assumes "s \<in> set (new_rows (joined (offsets q df) df))"
  defines "m \<equiv> find (\<lambda>e. quarantine_row.group_id e = chart_row.group_id s)
                  (retain_earliest (offsets q df))"
  shows "chart_row.lockdown_x s = map_option quarantine_row.lockdown_x m"
    and "chart_row.lockdown_type s = map_option quarantine_row.lockdown_type m"
proof -
  define rows where "rows = filter (\<lambda>r. chart_row.group_id r = chart_row.group_id s) (joined (offsets q df) df)"
  from new_rows_mem(1) [OF assms(1)] have ne: "rows \<noteq> []"
    by (auto simp: rows_def filter_empty_conv)
  have "\<forall>v\<in>set (map chart_row.lockdown_x rows). v = map_option quarantine_row.lockdown_x m"
    unfolding rows_def m_def by (auto simp: joined_lockdown(1))
  with ne have "col_max (map chart_row.lockdown_x rows) = map_option quarantine_row.lockdown_x m"
    by (intro col_max_const) auto
  then show "chart_row.lockdown_x s = map_option quarantine_row.lockdown_x m"
    using new_rows_mem(3) [OF assms(1)] by (simp add: rows_def)
  have "\<forall>v\<in>set (map chart_row.lockdown_type rows). v = map_option quarantine_row.lockdown_type m"
    unfolding rows_def m_def by (auto simp: joined_lockdown(2))
  with ne have "col_max (map chart_row.lockdown_type rows) = map_option quarantine_row.lockdown_type m"
    by (intro col_max_const) auto
  then show "chart_row.lockdown_type s = map_option quarantine_row.lockdown_type m"
    using new_rows_mem(4) [OF assms(1)] by (simp add: rows_def)
qed

lemma join_table_lockdown:
  assumes "r \<in> set (join_table q df)"
  defines "m \<equiv> find (\<lambda>e. quarantine_row.group_id e = chart_row.group_id r)
                  (retain_earliest (offsets q df))"
  shows "chart_row.lockdown_x r = map_option quarantine_row.lockdown_x m"
    and "chart_row.lockdown_type r = map_option quarantine_row.lockdown_type m"
  using assms joined_lockdown(1,2) new_rows_joined_lockdown
  by (auto simp: join_table_def Let_def)

lemmas join_eval = join_table_def joined_def new_rows_def add_lockdown_slope_def slope_def
  join_lockdown_y_def join_intercept_def df_intercept_def df_lockdown_y_def join_lockdown_def
  retain_earliest_def offsets_def merge_date_of_N_def lockdown_x_of_def merge_left_def merge_inner_def dropna_def
  groupby_keys_def first_valid_def col_max_def le_col_def of_col_def of_int_col_def
  days_between_def List.map_filter_def Let_def

lemma ex_retained:
  "retain_earliest (offsets ex_quarantine ex_aligned) =
     [\<lparr>quarantine_row.group_id = ''A'', lockdown_date = 12, lockdown_type = ''partial'',
       date_of_N = 10, lockdown_x = 2\<rparr>]"
  by (simp add: join_eval ex_quarantine_def ex_aligned_def aligned_def event_def)

lemma ex_joined:
  "joined (offsets ex_quarantine ex_aligned) ex_aligned =
    [\<lparr>chart_row.group_id = ''A'', date = Some 10, measure = Some 50, y = Some 50,
       date_of_N = Some 10, x = Some 0, lockdown_date = Some 12, lockdown_type = Some ''partial'',
       lockdown_x = Some 2, intercept = Some 50, lockdown_y = Some 50, lockdown_slope = Fin 1\<rparr>,
     \<lparr>chart_row.group_id = ''A'', date = Some 20, measure = Some 200, y = Some 200,
       date_of_N = Some 10, x = Some 10, lockdown_date = Some 12, lockdown_type = Some ''partial'',
       lockdown_x = Some 2, intercept = Some 50, lockdown_y = Some 50, lockdown_slope = Fin 1\<rparr>,
     \<lparr>chart_row.group_id = ''B'', date = Some 3, measure = Some 7, y = Some 7,
       date_of_N = Some 3, x = Some 0, lockdown_date = None, lockdown_type = None,
       lockdown_x = None, intercept = Some 7, lockdown_y = None, lockdown_slope = NaN\<rparr>]"
  by (simp add: join_eval ex_quarantine_def ex_aligned_def aligned_def event_def)

lemma ex_new_rows:
  "new_rows (joined (offsets ex_quarantine ex_aligned) ex_aligned) =
     [synthetic ''A'' (Some 2) (Some ''partial''), synthetic ''B'' None None]"
  unfolding ex_joined by (simp add: new_rows_def groupby_keys_def col_max_def List.map_filter_def synthetic_def Let_def)

lemma fdiv_NaN_right [simp]: "fdiv a NaN = NaN"
  by (cases a) simp_all

lemma slope_no_lockdown_x [simp]: "slope ly ic None = NaN"
  by (simp add: slope_def of_int_col_def)

lemma offsets_merge:
  "offsets q df =
     merge_inner fst observation.group_id
       (\<lambda>(g, d, t) a. \<lparr>quarantine_row.group_id = g, lockdown_date = d, lockdown_type = t,
           date_of_N = aligned_row.date_of_N a,
           lockdown_x = days_between (aligned_row.date_of_N a) d\<rparr>)
       (dropna q) df"
  by (simp add: offsets_def merge_date_of_N_def merge_inner_def lockdown_x_of_def map_concat
      comp_def split_def)

lemma offsets_mem:
  assumes "e \<in> set (offsets q df)"
  shows "\<exists>i\<in>set q. \<exists>a\<in>set df.
           complete i = Some (quarantine_row.group_id e, quarantine_row.lockdown_date e,
                              quarantine_row.lockdown_type e)
         \<and> observation.group_id a = quarantine_row.group_id e
         \<and> quarantine_row.lockdown_x e =
             days_between (aligned_row.date_of_N a) (quarantine_row.lockdown_date e)"
proof -
  from assms obtain g d t a where
    c: "(g, d, t) \<in> set (dropna q)" and a: "a \<in> set df" "observation.group_id a = g"
    and e: "e = \<lparr>quarantine_row.group_id = g, lockdown_date = d, lockdown_type = t,
              date_of_N = aligned_row.date_of_N a, lockdown_x = days_between (aligned_row.date_of_N a) d\<rparr>"
    unfolding offsets_merge merge_inner_def by auto
  from c obtain i where "i \<in> set q" "complete i = Some (g, d, t)"
    by (auto simp: dropna_def set_map_filter')
  with a e show ?thesis by auto
qed

lemma join_quarantine_eq:
  "join_quarantine q df =
     (if merge_date_of_N q df = [] then Inl ValueError else Inr (join_table q df))"
  by (simp add: join_quarantine_def with_lockdown_x_def join_table_def offsets_def Let_def)

lemma join_quarantine_Inr:
  "join_quarantine q df = Inr t \<Longrightarrow> t = join_table q df \<and> merge_date_of_N q df \<noteq> []"
  by (simp add: join_quarantine_eq split: if_splits)

lemma offsets_empty: "offsets q df = [] \<longleftrightarrow> merge_date_of_N q df = []"
  by (simp add: offsets_def)

lemma merge_date_of_N_empty:
  "merge_date_of_N q df = [] \<longleftrightarrow>
     \<not> (\<exists>i\<in>set q. \<exists>a\<in>set df. \<exists>g d t.
           complete i = Some (g, d, t) \<and> observation.group_id a = g)"
proof -
  have "merge_date_of_N q df = [] \<longleftrightarrow>
        (\<forall>c\<in>set (dropna q). \<forall>a\<in>set df. observation.group_id a \<noteq> fst c)"
    by (auto simp: merge_date_of_N_def merge_inner_def filter_empty_conv)
  also have "\<dots> \<longleftrightarrow> \<not> (\<exists>i\<in>set q. \<exists>a\<in>set df. \<exists>g d t.
           complete i = Some (g, d, t) \<and> observation.group_id a = g)"
    by (auto simp: dropna_def set_map_filter')
  finally show ?thesis .
qed

lemma ex_join_table:
  "join_table ex_quarantine ex_aligned =
    [\<lparr>chart_row.group_id = ''A'', date = Some 10, measure = Some 50, y = Some 50,
       date_of_N = Some 10, x = Some 0, lockdown_date = Some 12, lockdown_type = Some ''partial'',
       lockdown_x = Some 2, intercept = Some 50, lockdown_y = Some 50, lockdown_slope = Fin 1\<rparr>,
     \<lparr>chart_row.group_id = ''A'', date = Some 20, measure = Some 200, y = Some 200,
       date_of_N = Some 10, x = Some 10, lockdown_date = Some 12, lockdown_type = Some ''partial'',
       lockdown_x = Some 2, intercept = Some 50, lockdown_y = Some 50, lockdown_slope = Fin 1\<rparr>,
     \<lparr>chart_row.group_id = ''B'', date = Some 3, measure = Some 7, y = Some 7,
       date_of_N = Some 3, x = Some 0, lockdown_date = None, lockdown_type = None,
       lockdown_x = None, intercept = Some 7, lockdown_y = None, lockdown_slope = NaN\<rparr>,
     synthetic ''A'' (Some 2) (Some ''partial''), synthetic ''B'' None None]"
  by (simp add: join_table_def Let_def ex_new_rows) (simp add: ex_joined)


lemma ex_merge_date_of_N: "merge_date_of_N ex_quarantine ex_aligned \<noteq> []"
  by (simp add: merge_date_of_N_def merge_inner_def dropna_def List.map_filter_def
      ex_quarantine_def ex_aligned_def aligned_def event_def)

lemma ex_join_quarantine:
  "join_quarantine ex_quarantine ex_aligned = Inr (join_table ex_quarantine ex_aligned)"
  by (simp add: join_quarantine_eq ex_merge_date_of_N)

lemma with_lockdown_x_Inr:
  "with_lockdown_x (merge_date_of_N q df) = Inr Q \<Longrightarrow>
     Q = offsets q df \<and> merge_date_of_N q df \<noteq> [] \<and> join_quarantine q df = Inr (join_table q df)"
  by (simp add: with_lockdown_x_def offsets_def join_quarantine_eq split: if_splits)

lemma join_quarantine_Inl:
  "join_quarantine q df = Inl ValueError \<longleftrightarrow>
     \<not> (\<exists>i\<in>set q. \<exists>a\<in>set df. \<exists>g d t.
           complete i = Some (g, d, t) \<and> observation.group_id a = g)"
  unfolding merge_date_of_N_empty [symmetric] by (simp add: join_quarantine_eq)

lemma join_quarantine_with_lockdown_x:
  "join_quarantine q df = Inr t \<Longrightarrow> with_lockdown_x (merge_date_of_N q df) = Inr (offsets q df)"
  by (simp add: join_quarantine_eq with_lockdown_x_def offsets_def split: if_splits)

lemma ex_with_lockdown_x:
  "with_lockdown_x (merge_date_of_N ex_quarantine ex_aligned) = Inr (offsets ex_quarantine ex_aligned)"
  by (simp add: with_lockdown_x_def offsets_def ex_merge_date_of_N)

section \<open>Properties of the slope\<close>

lemma fdiv_NaN_left [simp]: "fdiv NaN b = NaN"
  by simp

lemma slope_without_lockdown_y [simp]: "slope None ic lx = NaN"
  by (simp add: slope_def of_col_def)

lemma slope_without_intercept [simp]: "slope ly None lx = NaN"
  by (simp add: slope_def of_col_def)

lemma slope_cases:
  assumes "0 < n"
  shows "slope (Some l) (Some c) (Some n) =
     (if c = 0 then (if 0 < l then PInf else NaN)
      else if 0 < l / c then Fin (exp (ln (l / c) / of_int n))
      else if l = 0 then Fin 0 else NaN)"
  using assms by (auto simp: slope_def of_col_def of_int_col_def)

lemma join_table_lockdown_x_pos:
  assumes "r \<in> set (join_table q df)" "chart_row.lockdown_x r = Some n"
  shows "0 < n"
proof -
  define m where "m = find (\<lambda>e. quarantine_row.group_id e = chart_row.group_id r)
                  (retain_earliest (offsets q df))"
  from join_table_lockdown(1) [OF assms(1)] assms(2)
  have "map_option quarantine_row.lockdown_x m = Some n" by (simp add: m_def)
  then obtain e where "m = Some e" "quarantine_row.lockdown_x e = n" by (cases m) auto
  then have "e \<in> set (retain_earliest (offsets q df))"
    by (auto simp: m_def dest: find_key_Some)
  from retain_earliest_mem [OF this] \<open>quarantine_row.lockdown_x e = n\<close> show ?thesis by simp
qed

lemma join_table_slope:
  assumes "r \<in> set (join_table q df)"
  shows "lockdown_slope r = slope (lockdown_y r) (intercept r) (chart_row.lockdown_x r)"
proof (cases "r \<in> set (joined (offsets q df) df)")
  case True
  then show ?thesis by (rule joined_lockdown(4))
next
  case False
  with assms have "r \<in> set (new_rows (joined (offsets q df) df))"
    by (auto simp: join_table_def Let_def)
  from new_rows_mem [OF this] show ?thesis by simp
qed

lemma power_exp_ln_div:
  fixes \<rho> :: real
  assumes "0 < \<rho>" "0 < n"
  shows "exp (ln \<rho> / of_int n) ^ nat n = \<rho>"
proof -
  have "exp (ln \<rho> / of_int n) ^ nat n = exp (of_nat (nat n) * (ln \<rho> / of_int n))"
    by (rule exp_of_nat_mult [symmetric])
  also from assms(2) have "of_nat (nat n) * (ln \<rho> / of_int n) = ln \<rho>"
    by simp
  finally show ?thesis using assms(1) by simp
qed

lemma slope_finite:
  assumes "slope ly ic (Some n) = Fin s" "0 < n"
  shows "\<exists>c l. ic = Some c \<and> ly = Some l \<and> s ^ nat n * c = l"
proof -
  from assms(1) obtain l where l: "ly = Some l" by (cases ly) auto
  from assms(1) obtain c where c: "ic = Some c" by (cases ic) auto
  from assms(1) have s: "slope (Some l) (Some c) (Some n) = Fin s" by (simp add: l c)
  have "s ^ nat n * c = l"
  proof (cases "c = 0")
    case True
    with s show ?thesis unfolding slope_cases [OF assms(2)] by (simp split: if_splits)
  next
    case False
    show ?thesis
    proof (cases "0 < l / c")
      case True
      with s False have "s = exp (ln (l / c) / of_int n)"
        unfolding slope_cases [OF assms(2)] by simp
      with power_exp_ln_div [OF True assms(2)] have "s ^ nat n = l / c" by simp
      with False show ?thesis by simp
    next
      case nonpos: False
      with s \<open>c \<noteq> 0\<close> have "l = 0" "s = 0"
        unfolding slope_cases [OF assms(2)] by (simp_all split: if_splits)
      moreover from assms(2) have "nat n \<noteq> 0" by simp
      ultimately show ?thesis by simp
    qed
  qed
  with l c show ?thesis by simp
qed

lemma fpow_Fin [simp]: "fpow (Fin s) k = Fin (s ^ k)"
  by (induction k) simp_all

lemma zero_intercept_rows:
  "join_table next_day_quarantine zero_intercept_aligned =
    [\<lparr>chart_row.group_id = ''A'', date = Some 10, measure = Some 0, y = Some 0,
       date_of_N = Some 10, x = Some 0, lockdown_date = Some 11, lockdown_type = Some ''full'',
       lockdown_x = Some 1, intercept = Some 0, lockdown_y = Some 3, lockdown_slope = PInf\<rparr>,
     \<lparr>chart_row.group_id = ''A'', date = Some 11, measure = Some 3, y = Some 3,
       date_of_N = Some 10, x = Some 1, lockdown_date = Some 11, lockdown_type = Some ''full'',
       lockdown_x = Some 1, intercept = Some 0, lockdown_y = Some 3, lockdown_slope = PInf\<rparr>,
     synthetic ''A'' (Some 1) (Some ''full'')]"
  by (simp add: join_eval next_day_quarantine_def zero_intercept_aligned_def aligned_def event_def
      synthetic_def)

lemma zero_lockdown_y_rows:
  "join_table next_day_quarantine zero_lockdown_y_aligned =
    [\<lparr>chart_row.group_id = ''A'', date = Some 10, measure = Some 50, y = Some 50,
       date_of_N = Some 10, x = Some 0, lockdown_date = Some 11, lockdown_type = Some ''full'',
       lockdown_x = Some 1, intercept = Some 50, lockdown_y = Some 0, lockdown_slope = Fin 0\<rparr>,
     \<lparr>chart_row.group_id = ''A'', date = Some 11, measure = Some 0, y = Some 0,
       date_of_N = Some 10, x = Some 1, lockdown_date = Some 11, lockdown_type = Some ''full'',
       lockdown_x = Some 1, intercept = Some 50, lockdown_y = Some 0, lockdown_slope = Fin 0\<rparr>,
     synthetic ''A'' (Some 1) (Some ''full'')]"
  by (simp add: join_eval next_day_quarantine_def zero_lockdown_y_aligned_def aligned_def event_def
      synthetic_def)

lemma slope_NaN_iff:
  assumes "0 < n"
  shows "slope ly ic (Some n) = NaN \<longleftrightarrow>
     ly = None \<or> ic = None
     \<or> (\<exists>l c. ly = Some l \<and> ic = Some c \<and> (l = 0 \<and> c = 0 \<or> l < 0 \<and> 0 \<le> c \<or> 0 < l \<and> c < 0))"
proof (cases ly)
  case None
  then show ?thesis by simp
next
  case l: (Some l)
  show ?thesis
  proof (cases ic)
    case None
    then show ?thesis by simp
  next
    case c: (Some c)
    have "slope (Some l) (Some c) (Some n) = NaN \<longleftrightarrow>
          (l = 0 \<and> c = 0 \<or> l < 0 \<and> 0 \<le> c \<or> 0 < l \<and> c < 0)"
      unfolding slope_cases [OF assms]
      by (auto simp: zero_less_divide_iff not_less)
    with l c show ?thesis by simp
  qed
qed

lemma zero_intercept_merge: "merge_date_of_N next_day_quarantine zero_intercept_aligned \<noteq> []"
  by (simp add: merge_date_of_N_def merge_inner_def dropna_def List.map_filter_def
      next_day_quarantine_def zero_intercept_aligned_def aligned_def event_def)

lemma zero_lockdown_y_merge: "merge_date_of_N next_day_quarantine zero_lockdown_y_aligned \<noteq> []"
  by (simp add: merge_date_of_N_def merge_inner_def dropna_def List.map_filter_def
      next_day_quarantine_def zero_lockdown_y_aligned_def aligned_def event_def)

section \<open>The join works group by group\<close>

lemma groupby_keys_filter:
  "groupby_keys (filter P ks) = filter P (groupby_keys ks)"
  by (simp add: groupby_keys_def remdups_filter filter_sort)

lemma filter_key_twice:
  "filter (\<lambda>r. k r = h) (filter (\<lambda>r. k r = g) rs) = (if h = g then filter (\<lambda>r. k r = g) rs else [])"
  by (induction rs) auto

lemma map_filter_cong:
  "(\<And>k. k \<in> set ks \<Longrightarrow> f k = f' k) \<Longrightarrow> List.map_filter f ks = List.map_filter f' ks"
proof (induction ks)
  case Nil
  then show ?case by (simp add: List.map_filter_simps)
next
  case (Cons k ks)
  then have "f k = f' k" and "List.map_filter f ks = List.map_filter f' ks"
    by simp_all
  then show ?case by (simp add: List.map_filter_simps split: option.split)
qed

lemma map_filter_filter_key:
  assumes "\<And>k e. f k = Some e \<Longrightarrow> key e = k"
  shows "filter (\<lambda>e. key e = g) (List.map_filter f ks) = List.map_filter f (filter (\<lambda>k. k = g) ks)"
proof (induction ks)
  case Nil
  then show ?case by (simp add: List.map_filter_simps)
next
  case (Cons k ks)
  show ?case
  proof (cases "f k")
    case None
    with Cons show ?thesis by (cases "k = g") (simp_all add: List.map_filter_simps)
  next
    case (Some e)
    with assms have "key e = k" by simp
    with Some Cons show ?thesis by (cases "k = g") (simp_all add: List.map_filter_simps)
  qed
qed

lemma merge_inner_filter:
  assumes "\<And>l r. key (row l r) = kl l"
  shows "merge_inner kl kr row ls (filter (\<lambda>r. kr r = g) rs) =
         filter (\<lambda>e. key e = g) (merge_inner kl kr row ls rs)"
proof (induction ls)
  case Nil
  then show ?case by (simp add: merge_inner_def)
next
  case (Cons l ls)
  have "map (row l) (filter (\<lambda>r. kr r = kl l) (filter (\<lambda>r. kr r = g) rs)) =
        filter (\<lambda>e. key e = g) (map (row l) (filter (\<lambda>r. kr r = kl l) rs))"
    by (cases "kl l = g") (simp_all add: filter_key_twice filter_map comp_def assms)
  with Cons show ?case by (simp add: merge_inner_def)
qed

lemma merge_left_filter:
  assumes "\<And>l m. key (row l m) = kl l"
  shows "merge_left kl kr row (filter (\<lambda>l. kl l = g) ls) (filter (\<lambda>r. kr r = g) rs) =
         filter (\<lambda>e. key e = g) (merge_left kl kr row ls rs)"
proof (induction ls)
  case Nil
  then show ?case by (simp add: merge_left_def)
next
  case (Cons l ls)
  let ?one = "\<lambda>rs. (case filter (\<lambda>r. kr r = kl l) rs of [] \<Rightarrow> [row l None]
                   | ms \<Rightarrow> map (\<lambda>m. row l (Some m)) ms)"
  have keys: "\<forall>e\<in>set (?one rs). key e = kl l"
    by (auto simp: assms split: list.splits)
  have unfold: "merge_left kl kr row (l # ms) rs = ?one rs @ merge_left kl kr row ms rs" for ms rs
    by (simp add: merge_left_def)
  show ?case
  proof (cases "kl l = g")
    case True
    then have same: "?one (filter (\<lambda>r. kr r = g) rs) = ?one rs"
      by (simp add: filter_key_twice)
    from keys True have keep: "filter (\<lambda>e. key e = g) (?one rs) = ?one rs"
      by (simp add: filter_id_conv)
    from True have "merge_left kl kr row (filter (\<lambda>l. kl l = g) (l # ls)) (filter (\<lambda>r. kr r = g) rs)
        = merge_left kl kr row (l # filter (\<lambda>l. kl l = g) ls) (filter (\<lambda>r. kr r = g) rs)"
      by simp
    also have "\<dots> = ?one (filter (\<lambda>r. kr r = g) rs)
        @ merge_left kl kr row (filter (\<lambda>l. kl l = g) ls) (filter (\<lambda>r. kr r = g) rs)"
      by (rule unfold)
    also have "\<dots> = filter (\<lambda>e. key e = g) (?one rs) @ filter (\<lambda>e. key e = g) (merge_left kl kr row ls rs)"
      by (simp only: same keep Cons.IH)
    also have "\<dots> = filter (\<lambda>e. key e = g) (merge_left kl kr row (l # ls) rs)"
      by (simp only: unfold filter_append)
    finally show ?thesis .
  next
    case False
    with keys have drop: "filter (\<lambda>e. key e = g) (?one rs) = []"
      by (simp add: filter_empty_conv)
    from False have "merge_left kl kr row (filter (\<lambda>l. kl l = g) (l # ls)) (filter (\<lambda>r. kr r = g) rs)
        = merge_left kl kr row (filter (\<lambda>l. kl l = g) ls) (filter (\<lambda>r. kr r = g) rs)"
      by simp
    also have "\<dots> = filter (\<lambda>e. key e = g) (?one rs) @ filter (\<lambda>e. key e = g) (merge_left kl kr row ls rs)"
      by (simp only: drop Cons.IH append_Nil)
    also have "\<dots> = filter (\<lambda>e. key e = g) (merge_left kl kr row (l # ls) rs)"
      by (simp only: unfold filter_append)
    finally show ?thesis .
  qed
qed

lemma offsets_filter:
  "offsets q (filter (\<lambda>a. observation.group_id a = g) df) =
   filter (\<lambda>e. quarantine_row.group_id e = g) (offsets q df)"
  unfolding offsets_merge
  by (rule merge_inner_filter) (simp add: split_def)

lemma retain_earliest_filter:
  "retain_earliest (filter (\<lambda>e. quarantine_row.group_id e = g) Q) =
   filter (\<lambda>e. quarantine_row.group_id e = g) (retain_earliest Q)"
proof -
  define q1 where "q1 = filter (\<lambda>e. 0 < quarantine_row.lockdown_x e) Q"
  define f where "f = (\<lambda>k. idxmin quarantine_row.lockdown_x (filter (\<lambda>e. quarantine_row.group_id e = k) q1))"
  define f' where "f' = (\<lambda>k. idxmin quarantine_row.lockdown_x
      (filter (\<lambda>e. quarantine_row.group_id e = k) (filter (\<lambda>e. quarantine_row.group_id e = g) q1)))"
  have q1': "filter (\<lambda>e. 0 < quarantine_row.lockdown_x e) (filter (\<lambda>e. quarantine_row.group_id e = g) Q)
      = filter (\<lambda>e. quarantine_row.group_id e = g) q1"
    by (simp add: q1_def conj_commute)
  have keys: "groupby_keys (map quarantine_row.group_id (filter (\<lambda>e. quarantine_row.group_id e = g) q1))
      = filter (\<lambda>k. k = g) (groupby_keys (map quarantine_row.group_id q1))"
    by (simp add: groupby_keys_filter [symmetric] filter_map comp_def)
  have "retain_earliest (filter (\<lambda>e. quarantine_row.group_id e = g) Q) =
        List.map_filter f' (filter (\<lambda>k. k = g) (groupby_keys (map quarantine_row.group_id q1)))"
    unfolding retain_earliest_def Let_def q1' keys f'_def ..
  also have "\<dots> = List.map_filter f (filter (\<lambda>k. k = g) (groupby_keys (map quarantine_row.group_id q1)))"
    by (rule map_filter_cong) (simp add: f_def f'_def filter_key_twice)
  also have "\<dots> = filter (\<lambda>e. quarantine_row.group_id e = g)
                     (List.map_filter f (groupby_keys (map quarantine_row.group_id q1)))"
  proof (rule map_filter_filter_key [symmetric])
    fix k e assume "f k = Some e"
    from idxmin_Some [OF this [unfolded f_def]] show "quarantine_row.group_id e = k" by simp
  qed
  also have "List.map_filter f (groupby_keys (map quarantine_row.group_id q1)) = retain_earliest Q"
    unfolding retain_earliest_def Let_def q1_def f_def ..
  finally show ?thesis .
qed

lemma join_lockdown_filter:
  "join_lockdown (filter (\<lambda>a. observation.group_id a = g) df)
       (filter (\<lambda>e. quarantine_row.group_id e = g) R) =
   filter (\<lambda>r. chart_row.group_id r = g) (join_lockdown df R)"
  unfolding join_lockdown_def
  by (rule merge_left_filter) simp

lemma join_intercept_filter:
  "join_intercept (filter (\<lambda>r. chart_row.group_id r = g) t) (filter (\<lambda>p. fst p = g) tab) =
   filter (\<lambda>r. chart_row.group_id r = g) (join_intercept t tab)"
  unfolding join_intercept_def
  by (rule merge_left_filter) simp

lemma join_lockdown_y_filter:
  "join_lockdown_y (filter (\<lambda>r. chart_row.group_id r = g) t) (filter (\<lambda>p. fst p = g) tab) =
   filter (\<lambda>r. chart_row.group_id r = g) (join_lockdown_y t tab)"
  unfolding join_lockdown_y_def
  by (rule merge_left_filter) simp

lemma map_filter_key_const:
  assumes "\<And>k. F' g = F g" "\<And>k. key (F k) = k"
  shows "map F' (filter (\<lambda>k. k = g) ks) = filter (\<lambda>e. key e = g) (map F ks)"
  using assms by (induction ks) auto

lemma df_intercept_filter:
  "df_intercept (filter (\<lambda>r. chart_row.group_id r = g) t) = filter (\<lambda>p. fst p = g) (df_intercept t)"
proof -
  define at0 where "at0 = filter (\<lambda>r. chart_row.x r = Some 0) t"
  have at0': "filter (\<lambda>r. chart_row.x r = Some 0) (filter (\<lambda>r. chart_row.group_id r = g) t)
      = filter (\<lambda>r. chart_row.group_id r = g) at0"
    by (simp add: at0_def conj_commute)
  have keys: "groupby_keys (map chart_row.group_id (filter (\<lambda>r. chart_row.group_id r = g) at0))
      = filter (\<lambda>k. k = g) (groupby_keys (map chart_row.group_id at0))"
    by (simp add: groupby_keys_filter [symmetric] filter_map comp_def)
  show ?thesis
    unfolding df_intercept_def Let_def at0' keys at0_def [symmetric]
    by (rule map_filter_key_const) (simp_all add: filter_key_twice)
qed

lemma df_lockdown_y_filter:
  "df_lockdown_y (filter (\<lambda>r. chart_row.group_id r = g) t) = filter (\<lambda>p. fst p = g) (df_lockdown_y t)"
proof -
  define before where "before = filter (\<lambda>r. le_col (chart_row.x r) (chart_row.lockdown_x r)) t"
  define f where "f = (\<lambda>k. map_option (\<lambda>(v, r). (k, chart_row.y r))
        (idxmax chart_row.x (filter (\<lambda>r. chart_row.group_id r = k) before)))"
  define f' where "f' = (\<lambda>k. map_option (\<lambda>(v, r). (k, chart_row.y r))
        (idxmax chart_row.x (filter (\<lambda>r. chart_row.group_id r = k)
            (filter (\<lambda>r. chart_row.group_id r = g) before))))"
  have before': "filter (\<lambda>r. le_col (chart_row.x r) (chart_row.lockdown_x r))
        (filter (\<lambda>r. chart_row.group_id r = g) t) = filter (\<lambda>r. chart_row.group_id r = g) before"
    by (simp add: before_def conj_commute)
  have keys: "groupby_keys (map chart_row.group_id (filter (\<lambda>r. chart_row.group_id r = g) before))
      = filter (\<lambda>k. k = g) (groupby_keys (map chart_row.group_id before))"
    by (simp add: groupby_keys_filter [symmetric] filter_map comp_def)
  have "df_lockdown_y (filter (\<lambda>r. chart_row.group_id r = g) t) =
        List.map_filter f' (filter (\<lambda>k. k = g) (groupby_keys (map chart_row.group_id before)))"
    unfolding df_lockdown_y_def Let_def before' keys f'_def ..
  also have "\<dots> = List.map_filter f (filter (\<lambda>k. k = g) (groupby_keys (map chart_row.group_id before)))"
    by (rule map_filter_cong) (simp add: f_def f'_def filter_key_twice)
  also have "\<dots> = filter (\<lambda>p. fst p = g) (List.map_filter f (groupby_keys (map chart_row.group_id before)))"
    by (rule map_filter_filter_key [symmetric]) (auto simp: f_def)
  also have "List.map_filter f (groupby_keys (map chart_row.group_id before)) = df_lockdown_y t"
    unfolding df_lockdown_y_def Let_def before_def f_def ..
  finally show ?thesis .
qed

lemma add_lockdown_slope_filter:
  "add_lockdown_slope (filter (\<lambda>r. chart_row.group_id r = g) t) =
   filter (\<lambda>r. chart_row.group_id r = g) (add_lockdown_slope t)"
  by (simp add: add_lockdown_slope_def filter_map comp_def)

lemma joined_filter:
  "joined (offsets q (filter (\<lambda>a. observation.group_id a = g) df))
       (filter (\<lambda>a. observation.group_id a = g) df) =
   filter (\<lambda>r. chart_row.group_id r = g) (joined (offsets q df) df)"
  unfolding joined_def Let_def
  by (simp only: offsets_filter retain_earliest_filter join_lockdown_filter
        df_intercept_filter df_lockdown_y_filter join_intercept_filter join_lockdown_y_filter
        add_lockdown_slope_filter)

lemma new_rows_filter:
  "new_rows (filter (\<lambda>r. chart_row.group_id r = g) t) =
   filter (\<lambda>r. chart_row.group_id r = g) (new_rows t)"
proof -
  have keys: "groupby_keys (map chart_row.group_id (filter (\<lambda>r. chart_row.group_id r = g) t))
      = filter (\<lambda>k. k = g) (groupby_keys (map chart_row.group_id t))"
    by (simp add: groupby_keys_filter [symmetric] filter_map comp_def)
  show ?thesis
    unfolding new_rows_def keys
    by (rule map_filter_key_const) (simp_all add: filter_key_twice Let_def)
qed

lemma join_table_filter:
  "join_table q (filter (\<lambda>a. observation.group_id a = g) df) =
   filter (\<lambda>r. chart_row.group_id r = g) (join_table q df)"
  by (simp add: join_table_def Let_def joined_filter new_rows_filter)

section \<open>Properties of the clipper and the example pipeline\<close>

lemma set_clip_x: "set (clip_x xd t) \<subseteq> set t"
  by (cases xd) (auto simp: clip_x_def)

lemma clip_x_append: "clip_x xd (t @ u) = clip_x xd t @ clip_x xd u"
  by (cases xd) (simp_all add: clip_x_def)

lemma clip_y_append: "clip_y yd (t @ u) = clip_y yd t @ clip_y yd u"
  by (cases yd) (simp_all add: clip_y_def)

lemma in_domain_None [simp]: "\<not> in_domain d None"
  by (simp add: in_domain_def le_col_def)

lemma clip_y_missing:
  "\<forall>s\<in>set t. chart_row.y s = None \<Longrightarrow> clip_y (Some yd) t = []"
  by (simp add: clip_y_def filter_empty_conv)

lemma clip_new_rows: "clip xd (Some yd) (new_rows t) = []"
proof -
  have "\<forall>s\<in>set (clip_x xd (new_rows t)). chart_row.y s = None"
    using set_clip_x [of xd "new_rows t"] new_rows_mem(5) by blast
  then show ?thesis unfolding clip_def by (rule clip_y_missing)
qed

lemma clip_append: "clip xd yd (t @ u) = clip xd yd t @ clip xd yd u"
  by (simp add: clip_def clip_x_append clip_y_append)

lemma ex_pipeline_add_y:
  "add_y False ex_observations =
     [\<lparr>observation.group_id = ''A'', date = 8, measure = 10, y = 10\<rparr>,
      \<lparr>observation.group_id = ''B'', date = 3, measure = 7, y = 7\<rparr>,
      \<lparr>observation.group_id = ''A'', date = 10, measure = 40, y = 50\<rparr>,
      \<lparr>observation.group_id = ''A'', date = 20, measure = 150, y = 200\<rparr>]"
  by (simp add: add_y_eval ex_observations_def)

lemma ex_pipeline_top_k:
  "top_k (Some 30) (add_y False ex_observations) = add_y False ex_observations"
  unfolding ex_pipeline_add_y
  by (simp add: top_k_def nlargest_def group_max_def peak_def groupby_keys_def Let_def)

lemma ex_pipeline_aligned:
  "DaysSinceNumReached 50 series_row.y (add_y False ex_observations) =
     [\<lparr>observation.group_id = ''A'', date = 8, measure = 10, y = 10, date_of_N = 10, x = - 2\<rparr>,
      \<lparr>observation.group_id = ''A'', date = 10, measure = 40, y = 50, date_of_N = 10, x = 0\<rparr>,
      \<lparr>observation.group_id = ''A'', date = 20, measure = 150, y = 200, date_of_N = 10, x = 10\<rparr>]"
  unfolding ex_pipeline_add_y
  by (simp add: DaysSinceNumReached_def Let_def)

lemma ex_pipeline_joined:
  "joined (offsets ex_quarantine (DaysSinceNumReached 50 series_row.y (add_y False ex_observations)))
      (DaysSinceNumReached 50 series_row.y (add_y False ex_observations)) =
    [\<lparr>chart_row.group_id = ''A'', date = Some 8, measure = Some 10, y = Some 10,
       date_of_N = Some 10, x = Some (- 2), lockdown_date = Some 12, lockdown_type = Some ''partial'',
       lockdown_x = Some 2, intercept = Some 50, lockdown_y = Some 50, lockdown_slope = Fin 1\<rparr>,
     \<lparr>chart_row.group_id = ''A'', date = Some 10, measure = Some 40, y = Some 50,
       date_of_N = Some 10, x = Some 0, lockdown_date = Some 12, lockdown_type = Some ''partial'',
       lockdown_x = Some 2, intercept = Some 50, lockdown_y = Some 50, lockdown_slope = Fin 1\<rparr>,
     \<lparr>chart_row.group_id = ''A'', date = Some 20, measure = Some 150, y = Some 200,
       date_of_N = Some 10, x = Some 10, lockdown_date = Some 12, lockdown_type = Some ''partial'',
       lockdown_x = Some 2, intercept = Some 50, lockdown_y = Some 50, lockdown_slope = Fin 1\<rparr>]"
  unfolding ex_pipeline_aligned
  by (simp add: join_eval ex_quarantine_def event_def)

lemma ex_pipeline_merge:
  "merge_date_of_N ex_quarantine
     (DaysSinceNumReached 50 series_row.y (add_y False ex_observations)) \<noteq> []"
  unfolding ex_pipeline_aligned
  by (simp add: merge_date_of_N_def merge_inner_def dropna_def List.map_filter_def
      ex_quarantine_def event_def)

lemma ex_pipeline:
  "preprocess_df ex_chart ex_observations = Inr
    [\<lparr>chart_row.group_id = ''A'', date = Some 10, measure = Some 40, y = Some 50,
       date_of_N = Some 10, x = Some 0, lockdown_date = Some 12, lockdown_type = Some ''partial'',
       lockdown_x = Some 2, intercept = Some 50, lockdown_y = Some 50, lockdown_slope = Fin 1\<rparr>,
     \<lparr>chart_row.group_id = ''A'', date = Some 20, measure = Some 150, y = Some 200,
       date_of_N = Some 10, x = Some 10, lockdown_date = Some 12, lockdown_type = Some ''partial'',
       lockdown_x = Some 2, intercept = Some 50, lockdown_y = Some 50, lockdown_slope = Fin 1\<rparr>]"
proof -
  let ?al = "DaysSinceNumReached 50 series_row.y (add_y False ex_observations)"
  have "preprocess_df ex_chart ex_observations =
     Inr (clip (Some (0, 60)) (Some (50, 1000000)) (join_table ex_quarantine ?al))"
    by (simp add: preprocess_df_def ex_chart_def Let_def ex_pipeline_top_k join_quarantine_eq
        ex_pipeline_merge)
  also have "clip (Some (0, 60)) (Some (50, 1000000)) (join_table ex_quarantine ?al)
     = clip (Some (0, 60)) (Some (50, 1000000)) (joined (offsets ex_quarantine ?al) ?al)"
    by (simp add: join_table_def Let_def clip_append clip_new_rows)
  finally show ?thesis
    unfolding ex_pipeline_joined
    by (simp add: clip_def clip_x_def clip_y_def in_domain_def le_col_def)
qed

lemma concat_singletons_length:
  "(\<And>r. length (f r) \<le> 1) \<Longrightarrow> length (concat (map f rs)) \<le> length rs"
proof (induction rs)
  case Nil
  then show ?case by simp
next
  case (Cons r rs)
  from Cons.prems [of r] Cons.IH [OF Cons.prems] show ?case by simp
qed

lemma DaysSinceNumReached_length: "length (DaysSinceNumReached N col s) \<le> length s"
  unfolding DaysSinceNumReached_def
  by (rule concat_singletons_length) (simp add: Let_def split: list.split)

lemma in_domain_present: "in_domain d v \<Longrightarrow> v \<noteq> None"
  by (cases v) simp_all

text \<open>
  C1 (as amended). Every row of the table that the join returns has
  \<open>lockdown_slope = exp(ln(lockdown_y / intercept) / lockdown_x)\<close> in numpy's arithmetic, and
  wherever that slope is a finite number, the growth equation holds: \<open>intercept\<close>,
  \<open>lockdown_y\<close> and \<open>lockdown_x\<close> are present, \<open>lockdown_x\<close> is positive and the slope raised
  to the power \<open>lockdown_x\<close>, multiplied by \<open>intercept\<close>, equals \<open>lockdown_y\<close> (exactly, in
  real arithmetic).
\<close>

theorem growth_equation:
  assumes "join_quarantine q df = Inr t"
  shows "\<forall>r\<in>set t.
      lockdown_slope r = slope (lockdown_y r) (intercept r) (chart_row.lockdown_x r)
    \<and> (\<forall>s. lockdown_slope r = Fin s \<longrightarrow>
          slope_equation_holds r
        \<and> (\<exists>c l n. intercept r = Some c \<and> lockdown_y r = Some l
             \<and> chart_row.lockdown_x r = Some n \<and> 0 < n \<and> s ^ nat n * c = l))"
proof (intro ballI conjI allI impI)
  fix r assume "r \<in> set t"
  with join_quarantine_Inr [OF assms] have r: "r \<in> set (join_table q df)" by simp
  show sl: "lockdown_slope r = slope (lockdown_y r) (intercept r) (chart_row.lockdown_x r)"
    by (rule join_table_slope [OF r])
  fix s assume s: "lockdown_slope r = Fin s"
  with sl obtain n where n: "chart_row.lockdown_x r = Some n"
    by (cases "chart_row.lockdown_x r") auto
  from join_table_lockdown_x_pos [OF r n] have pos: "0 < n" .
  from sl s n have "slope (lockdown_y r) (intercept r) (Some n) = Fin s" by simp
  from slope_finite [OF this pos] obtain c l where
    eq: "intercept r = Some c" "lockdown_y r = Some l" "s ^ nat n * c = l" by blast
  with n pos
  show "\<exists>c l n. intercept r = Some c \<and> lockdown_y r = Some l
             \<and> chart_row.lockdown_x r = Some n \<and> 0 < n \<and> s ^ nat n * c = l"
    by blast
  from eq n pos s show "slope_equation_holds r"
    by (simp add: slope_equation_holds_def of_col_def)
qed

theorem growth_equation_witness:
  "join_quarantine ex_quarantine ex_aligned = Inr (join_table ex_quarantine ex_aligned)
   \<and> lockdown_slope (join_table ex_quarantine ex_aligned ! 0) = Fin 1
   \<and> slope_equation_holds (join_table ex_quarantine ex_aligned ! 0)
   \<and> (\<exists>c l n. intercept (join_table ex_quarantine ex_aligned ! 0) = Some c
         \<and> lockdown_y (join_table ex_quarantine ex_aligned ! 0) = Some l
         \<and> chart_row.lockdown_x (join_table ex_quarantine ex_aligned ! 0) = Some n
         \<and> 0 < n \<and> 1 ^ nat n * c = l)"
proof -
  let ?r = "join_table ex_quarantine ex_aligned ! 0"
  have r: "?r \<in> set (join_table ex_quarantine ex_aligned)"
    and s: "lockdown_slope ?r = Fin 1"
    by (simp_all add: ex_join_table)
  from growth_equation [OF ex_join_quarantine, THEN bspec, OF r, THEN conjunct2, THEN spec, THEN mp, OF s]
  show ?thesis using s ex_join_quarantine by (intro conjI) simp_all
qed

theorem growth_equation_counterexample:
  "join_quarantine next_day_quarantine zero_intercept_aligned
     = Inr (join_table next_day_quarantine zero_intercept_aligned)
   \<and> lockdown_slope (join_table next_day_quarantine zero_intercept_aligned ! 0) = PInf
   \<and> intercept (join_table next_day_quarantine zero_intercept_aligned ! 0) = Some 0
   \<and> lockdown_y (join_table next_day_quarantine zero_intercept_aligned ! 0) = Some 3
   \<and> chart_row.lockdown_x (join_table next_day_quarantine zero_intercept_aligned ! 0) = Some 1
   \<and> \<not> slope_equation_holds (join_table next_day_quarantine zero_intercept_aligned ! 0)"
  by (simp add: join_quarantine_eq zero_intercept_merge)
     (simp add: zero_intercept_rows slope_equation_holds_def of_col_def)

text \<open>
  C2. After the intervention join each group retains at most one intervention. Where line 87
  returns the intervention table with its offsets, the table of retained interventions has
  one row per group, every retained row is an intervention of the input with a positive
  offset whose offset is the least among the positive offsets of its group, every group with
  an intervention of positive offset has a retained row (also when it has several), and the
  join returns a table each row of which carries the offset and the type of the retained
  intervention of its group, or missing cells when the group has none.
\<close>

theorem earliest_intervention_retained:
  assumes "with_lockdown_x (merge_date_of_N q df) = Inr Q"
  defines "R \<equiv> retain_earliest Q"
  shows "distinct (map quarantine_row.group_id R)
       \<and> (\<forall>e\<in>set R. e \<in> set Q \<and> 0 < quarantine_row.lockdown_x e
            \<and> (\<forall>e'\<in>set Q. quarantine_row.group_id e' = quarantine_row.group_id e
                    \<and> 0 < quarantine_row.lockdown_x e'
                  \<longrightarrow> quarantine_row.lockdown_x e \<le> quarantine_row.lockdown_x e'))
       \<and> (\<forall>e'\<in>set Q. 0 < quarantine_row.lockdown_x e'
            \<longrightarrow> quarantine_row.group_id e' \<in> quarantine_row.group_id ` set R)
       \<and> (\<exists>t. join_quarantine q df = Inr t
            \<and> (\<forall>r\<in>set t.
                 chart_row.lockdown_x r = map_option quarantine_row.lockdown_x
                   (find (\<lambda>e. quarantine_row.group_id e = chart_row.group_id r) R)
               \<and> chart_row.lockdown_type r = map_option quarantine_row.lockdown_type
                   (find (\<lambda>e. quarantine_row.group_id e = chart_row.group_id r) R)))"
proof -
  from with_lockdown_x_Inr [OF assms(1)]
  have Q: "Q = offsets q df" and jt: "join_quarantine q df = Inr (join_table q df)" by simp_all
  have 1: "distinct (map quarantine_row.group_id R)"
    unfolding R_def by (rule retain_earliest_distinct)
  have 2: "\<forall>e\<in>set R. e \<in> set Q \<and> 0 < quarantine_row.lockdown_x e
            \<and> (\<forall>e'\<in>set Q. quarantine_row.group_id e' = quarantine_row.group_id e
                    \<and> 0 < quarantine_row.lockdown_x e'
                  \<longrightarrow> quarantine_row.lockdown_x e \<le> quarantine_row.lockdown_x e')"
    unfolding R_def using retain_earliest_mem by blast
  have "set (map quarantine_row.group_id R) =
        set (map quarantine_row.group_id (filter (\<lambda>e. 0 < quarantine_row.lockdown_x e) Q))"
    unfolding R_def retain_earliest_keys by simp
  then have 3: "\<forall>e'\<in>set Q. 0 < quarantine_row.lockdown_x e'
            \<longrightarrow> quarantine_row.group_id e' \<in> quarantine_row.group_id ` set R"
    by auto
  have "\<forall>r\<in>set (join_table q df).
            chart_row.lockdown_x r = map_option quarantine_row.lockdown_x
               (find (\<lambda>e. quarantine_row.group_id e = chart_row.group_id r) R)
          \<and> chart_row.lockdown_type r = map_option quarantine_row.lockdown_type
               (find (\<lambda>e. quarantine_row.group_id e = chart_row.group_id r) R)"
    unfolding R_def Q using join_table_lockdown by blast
  with jt have 4: "\<exists>t. join_quarantine q df = Inr t
            \<and> (\<forall>r\<in>set t.
                 chart_row.lockdown_x r = map_option quarantine_row.lockdown_x
                   (find (\<lambda>e. quarantine_row.group_id e = chart_row.group_id r) R)
               \<and> chart_row.lockdown_type r = map_option quarantine_row.lockdown_type
                   (find (\<lambda>e. quarantine_row.group_id e = chart_row.group_id r) R))"
    by blast
  from 1 2 3 4 show ?thesis by blast
qed

theorem earliest_intervention_retained_witness:
  "with_lockdown_x (merge_date_of_N ex_quarantine ex_aligned) = Inr (offsets ex_quarantine ex_aligned)
   \<and> length (filter (\<lambda>e. quarantine_row.group_id e = ''A'' \<and> 0 < quarantine_row.lockdown_x e)
      (offsets ex_quarantine ex_aligned)) = 4
   \<and> map quarantine_row.lockdown_x (retain_earliest (offsets ex_quarantine ex_aligned)) = [2]
   \<and> join_quarantine ex_quarantine ex_aligned = Inr (join_table ex_quarantine ex_aligned)
   \<and> map chart_row.lockdown_x (join_table ex_quarantine ex_aligned)
       = [Some 2, Some 2, None, Some 2, None]
   \<and> distinct (map quarantine_row.group_id (retain_earliest (offsets ex_quarantine ex_aligned)))"
proof -
  have "length (filter (\<lambda>e. quarantine_row.group_id e = ''A'' \<and> 0 < quarantine_row.lockdown_x e)
      (offsets ex_quarantine ex_aligned)) = 4"
    by (simp add: join_eval ex_quarantine_def ex_aligned_def aligned_def event_def)
  moreover have "map chart_row.lockdown_x (join_table ex_quarantine ex_aligned)
       = [Some 2, Some 2, None, Some 2, None]"
    by (simp add: ex_join_table synthetic_def)
  ultimately show ?thesis
    using earliest_intervention_retained [OF ex_with_lockdown_x] ex_with_lockdown_x ex_join_quarantine
    by (simp add: ex_retained)
qed

text \<open>
  C3. In the table that the join returns a row with a lockdown cell that is not missing has
  \<open>lockdown_x > 0\<close>; and when every intervention of a row's group (with no missing cell)
  has an offset \<open>days_between(date_of_N, lockdown_date) \<le> 0\<close> from the anchor dates of the
  group, the lockdown cells of the row are missing. With \<open>days_between\<close> as modelled, such an
  offset means that the intervention is dated on or before the anchor date.
\<close>

theorem lockdown_x_positive:
  assumes "join_quarantine q df = Inr tab" "r \<in> set tab"
  shows "(chart_row.lockdown_x r \<noteq> None \<or> chart_row.lockdown_type r \<noteq> None
            \<or> chart_row.lockdown_date r \<noteq> None \<or> lockdown_y r \<noteq> None \<or> lockdown_slope r \<noteq> NaN
          \<longrightarrow> (\<exists>n. chart_row.lockdown_x r = Some n \<and> 0 < n))
       \<and> ((\<forall>i\<in>set q. \<forall>a\<in>set df. \<forall>d t.
              complete i = Some (chart_row.group_id r, d, t)
            \<and> observation.group_id a = chart_row.group_id r \<longrightarrow> days_between (aligned_row.date_of_N a) d \<le> 0)
          \<longrightarrow> chart_row.lockdown_x r = None \<and> chart_row.lockdown_type r = None
            \<and> chart_row.lockdown_date r = None \<and> lockdown_y r = None \<and> lockdown_slope r = NaN)
       \<and> (days_between anchor d0 \<le> 0 \<longleftrightarrow> d0 \<le> anchor)"
proof -
  from join_quarantine_Inr [OF assms(1)] assms(2) have rt: "r \<in> set (join_table q df)" by simp
  define R where "R = retain_earliest (offsets q df)"
  define m where "m = find (\<lambda>e. quarantine_row.group_id e = chart_row.group_id r) R"
  have lx: "chart_row.lockdown_x r = map_option quarantine_row.lockdown_x m"
    and lt: "chart_row.lockdown_type r = map_option quarantine_row.lockdown_type m"
    using join_table_lockdown [OF rt] by (simp_all add: m_def R_def)
  have none: "chart_row.lockdown_date r = None \<and> lockdown_y r = None \<and> lockdown_slope r = NaN"
    if "chart_row.lockdown_x r = None"
  proof (cases "r \<in> set (joined (offsets q df) df)")
    case True
    from joined_lockdown(1,3,4) [OF True] joined_lockdown_y_None [OF True that] that
    show ?thesis by auto
  next
    case False
    with rt have "r \<in> set (new_rows (joined (offsets q df) df))"
      by (auto simp: join_table_def Let_def)
    from new_rows_mem [OF this] show ?thesis by simp
  qed
  have pos: "0 < n" if "chart_row.lockdown_x r = Some n" for n
  proof -
    from that lx obtain e where "m = Some e" "quarantine_row.lockdown_x e = n" by auto
    then have "e \<in> set R" by (auto simp: m_def dest: find_key_Some)
    from retain_earliest_mem [OF this [unfolded R_def]] \<open>quarantine_row.lockdown_x e = n\<close>
    show ?thesis by simp
  qed
  have first: "chart_row.lockdown_x r \<noteq> None \<or> chart_row.lockdown_type r \<noteq> None
            \<or> chart_row.lockdown_date r \<noteq> None \<or> lockdown_y r \<noteq> None \<or> lockdown_slope r \<noteq> NaN
          \<longrightarrow> (\<exists>n. chart_row.lockdown_x r = Some n \<and> 0 < n)"
  proof (cases "chart_row.lockdown_x r")
    case None
    with none lx lt show ?thesis by (cases m) auto
  next
    case (Some n)
    with pos show ?thesis by simp
  qed
  have second: "chart_row.lockdown_x r = None \<and> chart_row.lockdown_type r = None
            \<and> chart_row.lockdown_date r = None \<and> lockdown_y r = None \<and> lockdown_slope r = NaN"
    if h: "\<forall>i\<in>set q. \<forall>a\<in>set df. \<forall>d t.
              complete i = Some (chart_row.group_id r, d, t)
            \<and> observation.group_id a = chart_row.group_id r \<longrightarrow> days_between (aligned_row.date_of_N a) d \<le> 0"
  proof -
    have "\<forall>e\<in>set (offsets q df).
            quarantine_row.group_id e = chart_row.group_id r \<longrightarrow> quarantine_row.lockdown_x e \<le> 0"
    proof (intro ballI impI)
      fix e assume e: "e \<in> set (offsets q df)"
        and g: "quarantine_row.group_id e = chart_row.group_id r"
      from offsets_mem [OF e] obtain i a where
        "i \<in> set q" "a \<in> set df"
        "complete i = Some (quarantine_row.group_id e, quarantine_row.lockdown_date e,
                              quarantine_row.lockdown_type e)"
        "observation.group_id a = quarantine_row.group_id e"
        "quarantine_row.lockdown_x e =
             days_between (aligned_row.date_of_N a) (quarantine_row.lockdown_date e)"
        by blast
      with h g show "quarantine_row.lockdown_x e \<le> 0" by fastforce
    qed
    then have "m = None"
      unfolding m_def R_def by (simp add: retain_earliest_find_None)
    with lx lt none show ?thesis by simp
  qed
  have third: "days_between anchor d0 \<le> 0 \<longleftrightarrow> d0 \<le> anchor"
    by (simp add: days_between_def)
  from first second third show ?thesis by blast
qed

theorem lockdown_x_positive_witness:
  "join_quarantine ex_quarantine ex_aligned = Inr (join_table ex_quarantine ex_aligned)
   \<and> (\<exists>n. chart_row.lockdown_x (join_table ex_quarantine ex_aligned ! 0) = Some n \<and> 0 < n)
   \<and> chart_row.lockdown_type (join_table ex_quarantine ex_aligned ! 2) = None
   \<and> lockdown_slope (join_table ex_quarantine ex_aligned ! 2) = NaN"
proof -
  let ?t = "join_table ex_quarantine ex_aligned"
  have m0: "?t ! 0 \<in> set ?t" and m2: "?t ! 2 \<in> set ?t"
    by (simp_all add: ex_join_table)
  have some: "chart_row.lockdown_x (?t ! 0) \<noteq> None" and g: "chart_row.group_id (?t ! 2) = ''B''"
    by (simp_all add: ex_join_table)
  have before: "\<forall>i\<in>set ex_quarantine. \<forall>a\<in>set ex_aligned. \<forall>d t.
              complete i = Some (chart_row.group_id (?t ! 2), d, t)
            \<and> observation.group_id a = chart_row.group_id (?t ! 2) \<longrightarrow> days_between (aligned_row.date_of_N a) d \<le> 0"
    unfolding g by (simp add: ex_quarantine_def ex_aligned_def event_def aligned_def days_between_def)
  from lockdown_x_positive [OF ex_join_quarantine m0] some
    lockdown_x_positive [OF ex_join_quarantine m2] before ex_join_quarantine
  show ?thesis by blast
qed


text \<open>
  C4 (as amended). The join raises \<open>ValueError\<close> (line 87) exactly when no intervention row
  without a missing cell belongs to a group of the aligned table. Otherwise it returns the
  joined table followed by the appended rows: the joined table keeps every row of the
  aligned table, in order and with its \<open>x\<close> and \<open>y\<close>, and exactly one row is appended per
  group of the table, in key order, whether or not the group has a retained intervention. An
  appended row carries the group, the \<open>lockdown_x\<close> and \<open>lockdown_type\<close> of the group's
  rows, and \<open>x\<close> equal to that \<open>lockdown_x\<close>; every other cell of it is missing. So every
  group with a retained intervention has an appended row whose \<open>x\<close> is its \<open>lockdown_x\<close>.
\<close>

theorem synthetic_rows:
  "(join_quarantine q df = Inl ValueError \<longleftrightarrow>
      \<not> (\<exists>i\<in>set q. \<exists>a\<in>set df. \<exists>g d t.
            complete i = Some (g, d, t) \<and> observation.group_id a = g))
   \<and> (\<forall>Q. with_lockdown_x (merge_date_of_N q df) = Inr Q \<longrightarrow>
         join_quarantine q df = Inr (joined Q df @ new_rows (joined Q df))
       \<and> map chart_row.group_id (joined Q df) = map observation.group_id df
       \<and> map chart_row.x (joined Q df) = map (\<lambda>a. Some (aligned_row.x a)) df
       \<and> map chart_row.y (joined Q df) = map (\<lambda>a. Some (series_row.y a)) df
       \<and> map chart_row.group_id (new_rows (joined Q df)) = groupby_keys (map observation.group_id df)
       \<and> (\<forall>s\<in>set (new_rows (joined Q df)).
             chart_row.x s = chart_row.lockdown_x s \<and> chart_row.y s = None
           \<and> chart_row.date s = None \<and> chart_row.measure s = None \<and> chart_row.date_of_N s = None
           \<and> chart_row.lockdown_date s = None \<and> intercept s = None \<and> lockdown_y s = None
           \<and> lockdown_slope s = NaN
           \<and> (\<forall>r\<in>set (joined Q df). chart_row.group_id r = chart_row.group_id s \<longrightarrow>
                 chart_row.lockdown_x s = chart_row.lockdown_x r
               \<and> chart_row.lockdown_type s = chart_row.lockdown_type r))
       \<and> (\<forall>r\<in>set (joined Q df). \<forall>n. chart_row.lockdown_x r = Some n \<longrightarrow>
             (\<exists>s\<in>set (new_rows (joined Q df)).
                chart_row.group_id s = chart_row.group_id r \<and> chart_row.x s = Some n)))"
proof (intro conjI allI impI)
  show "join_quarantine q df = Inl ValueError \<longleftrightarrow>
      \<not> (\<exists>i\<in>set q. \<exists>a\<in>set df. \<exists>g d t.
            complete i = Some (g, d, t) \<and> observation.group_id a = g)"
    by (rule join_quarantine_Inl)
next
  fix Q assume "with_lockdown_x (merge_date_of_N q df) = Inr Q"
  from with_lockdown_x_Inr [OF this]
  have Q: "Q = offsets q df" and jt: "join_quarantine q df = Inr (join_table q df)" by simp_all
  let ?t = "joined Q df"
  show "join_quarantine q df = Inr (?t @ new_rows ?t)"
    using jt by (simp add: join_table_def Let_def Q)
  show "map chart_row.group_id ?t = map observation.group_id df"
    unfolding Q by (rule joined_group_id)
  show "map chart_row.x ?t = map (\<lambda>a. Some (aligned_row.x a)) df"
    unfolding Q by (rule joined_x)
  show "map chart_row.y ?t = map (\<lambda>a. Some (series_row.y a)) df"
    unfolding Q by (rule joined_y)
  show keys: "map chart_row.group_id (new_rows ?t) = groupby_keys (map observation.group_id df)"
    unfolding Q by (simp add: new_rows_keys joined_group_id)
  have same: "chart_row.lockdown_x s = chart_row.lockdown_x r
           \<and> chart_row.lockdown_type s = chart_row.lockdown_type r"
    if "s \<in> set (new_rows ?t)" "r \<in> set ?t" "chart_row.group_id r = chart_row.group_id s" for r s
    using that new_rows_joined_lockdown [of s q df] joined_lockdown(1,2) [of r q df]
    unfolding Q by simp
  show "\<forall>s\<in>set (new_rows ?t).
         chart_row.x s = chart_row.lockdown_x s \<and> chart_row.y s = None
       \<and> chart_row.date s = None \<and> chart_row.measure s = None \<and> chart_row.date_of_N s = None
       \<and> chart_row.lockdown_date s = None \<and> intercept s = None \<and> lockdown_y s = None
       \<and> lockdown_slope s = NaN
       \<and> (\<forall>r\<in>set ?t. chart_row.group_id r = chart_row.group_id s \<longrightarrow>
             chart_row.lockdown_x s = chart_row.lockdown_x r
           \<and> chart_row.lockdown_type s = chart_row.lockdown_type r)"
  proof (intro ballI conjI impI)
    fix s assume s: "s \<in> set (new_rows ?t)"
    from new_rows_mem [OF s]
    show "chart_row.x s = chart_row.lockdown_x s" "chart_row.y s = None" "chart_row.date s = None"
      "chart_row.measure s = None" "chart_row.date_of_N s = None" "chart_row.lockdown_date s = None"
      "intercept s = None" "lockdown_y s = None" "lockdown_slope s = NaN"
      by simp_all
    fix r assume "r \<in> set ?t" "chart_row.group_id r = chart_row.group_id s"
    with same [OF s] show "chart_row.lockdown_x s = chart_row.lockdown_x r"
      "chart_row.lockdown_type s = chart_row.lockdown_type r" by simp_all
  qed
  show "\<forall>r\<in>set ?t. \<forall>n. chart_row.lockdown_x r = Some n \<longrightarrow>
         (\<exists>s\<in>set (new_rows ?t).
            chart_row.group_id s = chart_row.group_id r \<and> chart_row.x s = Some n)"
  proof (intro ballI allI impI)
    fix r n assume r: "r \<in> set ?t" and n: "chart_row.lockdown_x r = Some n"
    from r have "chart_row.group_id r \<in> set (map chart_row.group_id (new_rows ?t))"
      unfolding new_rows_keys by simp
    then obtain s where s: "s \<in> set (new_rows ?t)" "chart_row.group_id s = chart_row.group_id r"
      by auto
    from same [OF s(1) r] s(2) n new_rows_mem(2) [OF s(1)] have "chart_row.x s = Some n" by simp
    with s show "\<exists>s\<in>set (new_rows ?t).
            chart_row.group_id s = chart_row.group_id r \<and> chart_row.x s = Some n"
      by auto
  qed
qed

theorem synthetic_rows_witness:
  "with_lockdown_x (merge_date_of_N ex_quarantine ex_aligned) = Inr (offsets ex_quarantine ex_aligned)
   \<and> join_quarantine ex_quarantine ex_aligned
       = Inr (joined (offsets ex_quarantine ex_aligned) ex_aligned
              @ new_rows (joined (offsets ex_quarantine ex_aligned) ex_aligned))
   \<and> (\<exists>s\<in>set (new_rows (joined (offsets ex_quarantine ex_aligned) ex_aligned)).
         chart_row.group_id s = ''A'' \<and> chart_row.x s = Some 2)
   \<and> join_quarantine [] ex_aligned = Inl ValueError"
proof -
  let ?j = "joined (offsets ex_quarantine ex_aligned) ex_aligned"
  let ?r = "?j ! 0"
  have r: "?r \<in> set ?j"
    and n: "chart_row.lockdown_x ?r = Some 2" and g: "chart_row.group_id ?r = ''A''"
    by (simp_all add: ex_joined)
  note inst = synthetic_rows [of ex_quarantine ex_aligned, THEN conjunct2, THEN spec, THEN mp,
      OF ex_with_lockdown_x]
  from inst [THEN conjunct1]
  have a: "join_quarantine ex_quarantine ex_aligned = Inr (?j @ new_rows ?j)" .
  from inst [THEN conjunct2, THEN conjunct2, THEN conjunct2, THEN conjunct2, THEN conjunct2,
      THEN conjunct2, THEN bspec, OF r, THEN spec, THEN mp, OF n] g
  have b: "\<exists>s\<in>set (new_rows ?j). chart_row.group_id s = ''A'' \<and> chart_row.x s = Some 2" by simp
  from synthetic_rows [of "[]" ex_aligned, THEN conjunct1]
  have c: "join_quarantine [] ex_aligned = Inl ValueError" by simp
  from ex_with_lockdown_x a b c show ?thesis by (intro conjI)
qed

theorem synthetic_rows_counterexample:
  "join_quarantine ex_quarantine ex_aligned
       = Inr (joined (offsets ex_quarantine ex_aligned) ex_aligned
              @ [synthetic ''A'' (Some 2) (Some ''partial''), synthetic ''B'' None None])
   \<and> map quarantine_row.group_id (retain_earliest (offsets ex_quarantine ex_aligned)) = [''A'']
   \<and> map chart_row.group_id (joined (offsets ex_quarantine ex_aligned) ex_aligned) = [''A'', ''A'', ''B'']
   \<and> map chart_row.x (joined (offsets ex_quarantine ex_aligned) ex_aligned) = [Some 0, Some 10, Some 0]
   \<and> map chart_row.y (joined (offsets ex_quarantine ex_aligned) ex_aligned) = [Some 50, Some 200, Some 7]
   \<and> chart_row.y (synthetic ''A'' (Some 2) (Some ''partial'')) = None
   \<and> chart_row.date (synthetic ''A'' (Some 2) (Some ''partial'')) = None"
proof -
  have "map chart_row.group_id (joined (offsets ex_quarantine ex_aligned) ex_aligned) = [''A'', ''A'', ''B'']"
    "map chart_row.x (joined (offsets ex_quarantine ex_aligned) ex_aligned) = [Some 0, Some 10, Some 0]"
    "map chart_row.y (joined (offsets ex_quarantine ex_aligned) ex_aligned) = [Some 50, Some 200, Some 7]"
    by (simp_all add: ex_joined)
  moreover have "map quarantine_row.group_id (retain_earliest (offsets ex_quarantine ex_aligned)) = [''A'']"
    by (simp add: ex_retained)
  moreover have "chart_row.y (synthetic ''A'' (Some 2) (Some ''partial'')) = None"
    "chart_row.date (synthetic ''A'' (Some 2) (Some ''partial'')) = None"
    by (simp_all add: synthetic_def)
  moreover have "join_quarantine ex_quarantine ex_aligned
       = Inr (joined (offsets ex_quarantine ex_aligned) ex_aligned
              @ [synthetic ''A'' (Some 2) (Some ''partial''), synthetic ''B'' None None])"
    unfolding ex_join_quarantine join_table_def Let_def ex_new_rows ..
  ultimately show ?thesis by (intro conjI)
qed

text \<open>
  C5 (as amended). With \<open>top_k_groups = K\<close> the normalizer keeps all rows of the retained
  groups and no other row; the number of retained groups is the smaller of \<open>K\<close> (zero for a
  negative \<open>K\<close>) and the number of distinct groups; and every retained group ranks before
  every group that is not retained: its peak \<open>y\<close> is larger, or equal with a smaller group
  key (ties go by ascending key, the order of \<open>groupby\<close>, not by input order).
\<close>

theorem top_k_selected:
  "top_k None df = df
   \<and> top_k (Some K) df =
       filter (\<lambda>r. observation.group_id r \<in> observation.group_id ` set (top_k (Some K) df)) df
   \<and> card (observation.group_id ` set (top_k (Some K) df))
       = min (nat K) (card (observation.group_id ` set df))
   \<and> (\<forall>r\<in>set (top_k (Some K) df). \<forall>s\<in>set df.
         observation.group_id s \<notin> observation.group_id ` set (top_k (Some K) df)
         \<longrightarrow> peak df (observation.group_id s) < peak df (observation.group_id r)
           \<or> (peak df (observation.group_id s) = peak df (observation.group_id r)
               \<and> observation.group_id r < observation.group_id s))"
proof -
  let ?N = "nlargest K (group_max df)"
  have 1: "top_k None df = df" by (simp add: top_k_def)
  have 2: "top_k (Some K) df =
       filter (\<lambda>r. observation.group_id r \<in> observation.group_id ` set (top_k (Some K) df)) df"
    unfolding top_k_groups by (simp add: top_k_def Let_def)
  have "card (fst ` set ?N) = length ?N"
    using distinct_card [OF nlargest_distinct, of K df] by simp
  then have 3: "card (observation.group_id ` set (top_k (Some K) df))
       = min (nat K) (card (observation.group_id ` set df))"
    unfolding top_k_groups by (simp add: nlargest_length)
  have 4: "peak df (observation.group_id s) < peak df (observation.group_id r)
           \<or> (peak df (observation.group_id s) = peak df (observation.group_id r)
               \<and> observation.group_id r < observation.group_id s)"
    if r: "r \<in> set (top_k (Some K) df)" and s: "s \<in> set df"
      and out: "observation.group_id s \<notin> observation.group_id ` set (top_k (Some K) df)" for r s
  proof -
    from r have "observation.group_id r \<in> fst ` set ?N"
      unfolding top_k_groups [symmetric] by simp
    then obtain a where a: "a \<in> set ?N" "fst a = observation.group_id r" by auto
    with nlargest_subset [of K "group_max df"] have pa: "snd a = peak df (observation.group_id r)"
      using group_max_mem [of a df] by auto
    define b where "b = (observation.group_id s, peak df (observation.group_id s))"
    from s have b: "b \<in> set (group_max df)"
      by (auto simp: group_max_def b_def)
    from out have "b \<notin> set ?N"
      unfolding top_k_groups b_def by force
    from nlargest_ranks [OF a(1) b this] a(2) pa show ?thesis
      by (auto simp: ranks_before_def b_def)
  qed
  from 4 have ranked: "\<forall>r\<in>set (top_k (Some K) df). \<forall>s\<in>set df.
         observation.group_id s \<notin> observation.group_id ` set (top_k (Some K) df)
         \<longrightarrow> peak df (observation.group_id s) < peak df (observation.group_id r)
           \<or> (peak df (observation.group_id s) = peak df (observation.group_id r)
               \<and> observation.group_id r < observation.group_id s)"
    by (intro ballI impI)
  show ?thesis
    apply (intro conjI)
       apply (rule 1)
      apply (rule 2)
     apply (rule 3)
    apply (rule ranked)
    done
qed

lemmas top_k_eval = top_k_def nlargest_def group_max_def peak_def groupby_keys_def series_def Let_def

theorem top_k_selected_counterexample:
  "map observation.group_id (top_k (Some 1) tied_series) = [''A'']
   \<and> spec_top_groups 1 tied_series = [''B'']"
  by (simp add: top_k_eval spec_top_groups_def unique_def tied_series_def)


theorem top_k_selected_witness:
  "card (observation.group_id ` set (top_k (Some 2) ex_series)) = 2
   \<and> (peak ex_series ''C'' < peak ex_series ''A''
      \<or> (peak ex_series ''C'' = peak ex_series ''A'' \<and> ''A'' < ''C''))"
proof -
  have t: "top_k (Some 2) ex_series = [series ''A'' 1 5, series ''B'' 1 9, series ''A'' 2 3]"
    by (simp add: top_k_eval ex_series_def)
  have r: "series ''A'' 1 5 \<in> set (top_k (Some 2) ex_series)"
    unfolding t by simp
  have s: "series ''C'' 1 5 \<in> set ex_series"
    by (simp add: ex_series_def)
  have out: "observation.group_id (series ''C'' 1 5) \<notin> observation.group_id ` set (top_k (Some 2) ex_series)"
    unfolding t by (simp add: series_def)
  have "card (set (map observation.group_id ex_series)) = 4"
    by (simp only: card_set) (simp add: ex_series_def series_def)
  then have c: "card (observation.group_id ` set ex_series) = 4"
    by (simp only: set_map)
  note inst = top_k_selected [of ex_series 2]
  from inst [THEN conjunct2, THEN conjunct2, THEN conjunct1] c
  have 1: "card (observation.group_id ` set (top_k (Some 2) ex_series)) = 2" by simp
  from inst [THEN conjunct2, THEN conjunct2, THEN conjunct2, THEN bspec, OF r, THEN bspec, OF s, THEN mp, OF out]
  have 2: "peak ex_series ''C'' < peak ex_series ''A''
      \<or> (peak ex_series ''C'' = peak ex_series ''A'' \<and> ''A'' < ''C'')"
    by (simp add: series_def)
  from 1 2 show ?thesis by (rule conjI)
qed

text \<open>
  C6 (as amended). With a measure flagged as cumulative, \<open>y\<close> is the raw measure of the row.
  Otherwise \<open>y\<close> is the running sum of the raw measure within the row's group taken in row
  order: the sum of the measures of the rows of the group that stand at or above the row in
  the table. This is the running sum ordered by date whenever the rows of each group stand
  in strictly ascending order of date.
\<close>

theorem y_column:
  "add_y True df = map (\<lambda>r. with_y r (observation.measure r)) df
   \<and> length (add_y False df) = length df
   \<and> (\<forall>k<length df. add_y False df ! k = with_y (df ! k)
         (sum_list (map observation.measure
            (filter (\<lambda>r. observation.group_id r = observation.group_id (df ! k)) (take (Suc k) df)))))
   \<and> ((\<forall>i j. i < j \<and> j < length df
              \<and> observation.group_id (df ! i) = observation.group_id (df ! j)
            \<longrightarrow> observation.date (df ! i) < observation.date (df ! j))
       \<longrightarrow> (\<forall>k<length df. series_row.y (add_y False df ! k) = running_sum_by_date df (df ! k)))"
proof -
  have 1: "add_y True df = map (\<lambda>r. with_y r (observation.measure r)) df"
    by (simp add: add_y_def)
  have 3: "\<forall>k<length df. add_y False df ! k = with_y (df ! k)
         (sum_list (map observation.measure
            (filter (\<lambda>r. observation.group_id r = observation.group_id (df ! k)) (take (Suc k) df))))"
    by (intro allI impI) (rule add_y_running_nth)
  have 4: "\<forall>k<length df. series_row.y (add_y False df ! k) = running_sum_by_date df (df ! k)"
    if asc: "\<forall>i j. i < j \<and> j < length df
              \<and> observation.group_id (df ! i) = observation.group_id (df ! j)
            \<longrightarrow> observation.date (df ! i) < observation.date (df ! j)"
  proof (intro allI impI)
    fix k assume k: "k < length df"
    show "series_row.y (add_y False df ! k) = running_sum_by_date df (df ! k)"
      unfolding running_sum_by_date_def filter_by_date_take [OF asc k]
      by (simp add: add_y_running_nth [OF k] with_y_def)
  qed
  have 2: "length (add_y False df) = length df"
    by (rule add_y_length)
  show ?thesis
    apply (intro conjI)
       apply (rule 1)
      apply (rule 2)
     apply (rule 3)
    apply (rule impI)
    apply (rule 4)
    apply assumption
    done
qed

theorem y_column_witness:
  "series_row.y (add_y False ex_observations ! 3) = 200
   \<and> running_sum_by_date ex_observations (ex_observations ! 3) = 200"
proof -
  have asc: "\<forall>i j. i < j \<and> j < length ex_observations
              \<and> observation.group_id (ex_observations ! i) = observation.group_id (ex_observations ! j)
            \<longrightarrow> observation.date (ex_observations ! i) < observation.date (ex_observations ! j)"
  proof (intro allI impI)
    fix i j :: nat
    assume h: "i < j \<and> j < length ex_observations
              \<and> observation.group_id (ex_observations ! i) = observation.group_id (ex_observations ! j)"
    then have ij: "i < j" and j4: "j < length ex_observations"
      and g: "observation.group_id (ex_observations ! i) = observation.group_id (ex_observations ! j)"
      by blast+
    from j4 have "j < 4" by (simp add: ex_observations_def)
    with ij consider "i = 0 \<and> j = 1" | "i = 0 \<and> j = 2" | "i = 1 \<and> j = 2"
      | "i = 0 \<and> j = 3" | "i = 1 \<and> j = 3" | "i = 2 \<and> j = 3"
      by arith
    then show "observation.date (ex_observations ! i) < observation.date (ex_observations ! j)"
    proof cases
      case 1
      with g show ?thesis by (simp add: ex_observations_def obs_def)
    next
      case 2
      then show ?thesis by (simp add: ex_observations_def obs_def)
    next
      case 3
      with g show ?thesis by (simp add: ex_observations_def obs_def)
    next
      case 4
      then show ?thesis by (simp add: ex_observations_def obs_def)
    next
      case 5
      with g show ?thesis by (simp add: ex_observations_def obs_def)
    next
      case 6
      then show ?thesis by (simp add: ex_observations_def obs_def)
    qed
  qed
  have k: "3 < length ex_observations" by (simp add: ex_observations_def)
  have v: "running_sum_by_date ex_observations (ex_observations ! 3) = 200"
    by (simp add: running_sum_by_date_def ex_observations_def obs_def)
  have "series_row.y (add_y False ex_observations ! 3) = running_sum_by_date ex_observations (ex_observations ! 3)"
    by (rule y_column [of ex_observations, THEN conjunct2, THEN conjunct2, THEN conjunct2,
          THEN mp, OF asc, THEN spec, THEN mp, OF k])
  with v show ?thesis by simp
qed

theorem y_column_counterexample:
  "map series_row.y (add_y False unsorted_observations) = [1, 11]
   \<and> map (running_sum_by_date unsorted_observations) unsorted_observations = [11, 10]"
  by (simp add: add_y_eval running_sum_by_date_def unsorted_observations_def)

text \<open>
  C7 (as amended). The join returns a table whenever an intervention row without a missing
  cell belongs to a group of the aligned table, so for every group with a qualifying
  intervention; the slope is then computed for every row without an error, and the offset
  of a joined intervention is never zero. Without an intervention the slope is NaN. For a
  positive offset the slope is NaN exactly when \<open>lockdown_y\<close> or \<open>intercept\<close> is missing,
  both are zero, or \<open>lockdown_y\<close> is negative with a non-negative \<open>intercept\<close>, or positive
  with a negative \<open>intercept\<close>. In the other cases it is \<open>+inf\<close> for a zero \<open>intercept\<close> and
  a positive \<open>lockdown_y\<close>, \<open>exp(ln(lockdown_y / intercept) / lockdown_x)\<close> for a positive
  ratio (two positive or two negative values), and \<open>0\<close> for a zero \<open>lockdown_y\<close> with a
  non-zero \<open>intercept\<close>. The rows of a group in the returned table depend only on the
  group's rows in the aligned table.
\<close>

theorem slope_missing:
  "(\<forall>tab. join_quarantine q df = Inr tab \<longrightarrow>
      (\<forall>r\<in>set tab.
         lockdown_slope r = slope (lockdown_y r) (intercept r) (chart_row.lockdown_x r)
       \<and> (\<forall>k. chart_row.lockdown_x r = Some k \<longrightarrow> 0 < k)))
   \<and> ((\<exists>i\<in>set q. \<exists>a\<in>set df. \<exists>g d t.
          complete i = Some (g, d, t) \<and> observation.group_id a = g)
        \<longrightarrow> (\<exists>tab. join_quarantine q df = Inr tab))
   \<and> slope ly ic None = NaN
   \<and> (0 < n \<longrightarrow>
        (slope ly ic (Some n) = NaN \<longleftrightarrow>
           ly = None \<or> ic = None
           \<or> (\<exists>l c. ly = Some l \<and> ic = Some c
                 \<and> (l = 0 \<and> c = 0 \<or> l < 0 \<and> 0 \<le> c \<or> 0 < l \<and> c < 0))))
   \<and> (0 < n \<longrightarrow>
        slope (Some l) (Some c) (Some n) =
          (if c = 0 then (if 0 < l then PInf else NaN)
           else if 0 < l / c then Fin (exp (ln (l / c) / of_int n))
           else if l = 0 then Fin 0 else NaN))
   \<and> (\<forall>tab tab'. join_quarantine q df = Inr tab \<and> join_quarantine q df' = Inr tab'
          \<and> filter (\<lambda>a. observation.group_id a = g) df = filter (\<lambda>a. observation.group_id a = g) df'
        \<longrightarrow> filter (\<lambda>r. chart_row.group_id r = g) tab = filter (\<lambda>r. chart_row.group_id r = g) tab')"
proof -
  have 1: "\<forall>tab. join_quarantine q df = Inr tab \<longrightarrow>
      (\<forall>r\<in>set tab.
         lockdown_slope r = slope (lockdown_y r) (intercept r) (chart_row.lockdown_x r)
       \<and> (\<forall>k. chart_row.lockdown_x r = Some k \<longrightarrow> 0 < k))"
  proof (intro allI impI ballI conjI)
    fix tab r assume "join_quarantine q df = Inr tab" "r \<in> set tab"
    with join_quarantine_Inr have r: "r \<in> set (join_table q df)" by blast
    show "lockdown_slope r = slope (lockdown_y r) (intercept r) (chart_row.lockdown_x r)"
      by (rule join_table_slope [OF r])
    fix k assume "chart_row.lockdown_x r = Some k"
    with r show "0 < k" by (rule join_table_lockdown_x_pos)
  qed
  have 2: "(\<exists>i\<in>set q. \<exists>a\<in>set df. \<exists>g d t.
          complete i = Some (g, d, t) \<and> observation.group_id a = g)
        \<longrightarrow> (\<exists>tab. join_quarantine q df = Inr tab)"
    unfolding join_quarantine_eq using merge_date_of_N_empty [of q df] by auto
  have 4: "0 < n \<longrightarrow>
        (slope ly ic (Some n) = NaN \<longleftrightarrow>
           ly = None \<or> ic = None
           \<or> (\<exists>l c. ly = Some l \<and> ic = Some c
                 \<and> (l = 0 \<and> c = 0 \<or> l < 0 \<and> 0 \<le> c \<or> 0 < l \<and> c < 0)))"
    by (rule impI) (rule slope_NaN_iff)
  have 5: "0 < n \<longrightarrow>
        slope (Some l) (Some c) (Some n) =
          (if c = 0 then (if 0 < l then PInf else NaN)
           else if 0 < l / c then Fin (exp (ln (l / c) / of_int n))
           else if l = 0 then Fin 0 else NaN)"
    by (rule impI) (rule slope_cases)
  have 6: "\<forall>tab tab'. join_quarantine q df = Inr tab \<and> join_quarantine q df' = Inr tab'
          \<and> filter (\<lambda>a. observation.group_id a = g) df = filter (\<lambda>a. observation.group_id a = g) df'
        \<longrightarrow> filter (\<lambda>r. chart_row.group_id r = g) tab = filter (\<lambda>r. chart_row.group_id r = g) tab'"
  proof (intro allI impI)
    fix tab tab'
    assume h: "join_quarantine q df = Inr tab \<and> join_quarantine q df' = Inr tab'
          \<and> filter (\<lambda>a. observation.group_id a = g) df = filter (\<lambda>a. observation.group_id a = g) df'"
    then have t: "tab = join_table q df" "tab' = join_table q df'"
      using join_quarantine_Inr by blast+
    from h have "join_table q (filter (\<lambda>a. observation.group_id a = g) df)
        = join_table q (filter (\<lambda>a. observation.group_id a = g) df')" by simp
    then show "filter (\<lambda>r. chart_row.group_id r = g) tab = filter (\<lambda>r. chart_row.group_id r = g) tab'"
      unfolding t join_table_filter .
  qed
  show ?thesis
    apply (intro conjI)
         apply (rule 1)
        apply (rule 2)
       apply (rule slope_no_lockdown_x)
      apply (rule 4)
     apply (rule 5)
    apply (rule 6)
    done
qed

theorem slope_missing_witness:
  "join_quarantine ex_quarantine ex_aligned = Inr (join_table ex_quarantine ex_aligned)
   \<and> slope (Some 3) (Some (- 1)) (Some 1) = NaN
   \<and> slope (Some 0) (Some 50) (Some 1) = Fin 0
   \<and> lockdown_slope (join_table ex_quarantine ex_aligned ! 0) = slope (Some 50) (Some 50) (Some 2)
   \<and> (0::int) < 2"
proof -
  let ?r = "join_table ex_quarantine ex_aligned ! 0"
  note inst = slope_missing [of ex_quarantine ex_aligned "Some 3" "Some (- 1)" 1 0 50 ex_aligned "''A''"]
  have r: "?r \<in> set (join_table ex_quarantine ex_aligned)"
    and f: "lockdown_y ?r = Some 50" "intercept ?r = Some 50" "chart_row.lockdown_x ?r = Some 2"
    by (simp_all add: ex_join_table)
  from inst [THEN conjunct1, THEN spec, THEN mp, OF ex_join_quarantine, THEN bspec, OF r] f
  have a: "lockdown_slope ?r = slope (Some 50) (Some 50) (Some 2)" and b: "(0::int) < 2"
    by simp_all
  have pos: "(0::int) < 1" by simp
  from inst [THEN conjunct2, THEN conjunct2, THEN conjunct2, THEN conjunct1, THEN mp, OF pos]
  have c: "slope (Some 3) (Some (- 1)) (Some 1) = NaN" by simp
  from inst [THEN conjunct2, THEN conjunct2, THEN conjunct2, THEN conjunct2, THEN conjunct1, THEN mp, OF pos]
  have d: "slope (Some 0) (Some 50) (Some 1) = Fin 0" by simp
  from ex_join_quarantine c d a b show ?thesis by (intro conjI)
qed

theorem slope_missing_counterexample:
  "join_quarantine next_day_quarantine zero_lockdown_y_aligned
     = Inr (join_table next_day_quarantine zero_lockdown_y_aligned)
   \<and> map intercept (join_table next_day_quarantine zero_lockdown_y_aligned)
     = [Some 50, Some 50, None]
   \<and> map lockdown_y (join_table next_day_quarantine zero_lockdown_y_aligned)
     = [Some 0, Some 0, None]
   \<and> map lockdown_slope (join_table next_day_quarantine zero_lockdown_y_aligned)
     = [Fin 0, Fin 0, NaN]
   \<and> join_quarantine next_day_quarantine zero_intercept_aligned
     = Inr (join_table next_day_quarantine zero_intercept_aligned)
   \<and> map lockdown_slope (join_table next_day_quarantine zero_intercept_aligned)
     = [PInf, PInf, NaN]
   \<and> slope (Some (- 1)) (Some (- 1)) (Some 1) = Fin 1"
proof -
  have "slope (Some (- 1)) (Some (- 1)) (Some 1) = Fin 1"
    by (simp add: slope_def of_col_def of_int_col_def)
  moreover have "join_quarantine next_day_quarantine zero_lockdown_y_aligned
     = Inr (join_table next_day_quarantine zero_lockdown_y_aligned)"
    "join_quarantine next_day_quarantine zero_intercept_aligned
     = Inr (join_table next_day_quarantine zero_intercept_aligned)"
    by (simp_all add: join_quarantine_eq zero_intercept_merge zero_lockdown_y_merge)
  moreover have "map intercept (join_table next_day_quarantine zero_lockdown_y_aligned)
     = [Some 50, Some 50, None]"
    "map lockdown_y (join_table next_day_quarantine zero_lockdown_y_aligned)
     = [Some 0, Some 0, None]"
    "map lockdown_slope (join_table next_day_quarantine zero_lockdown_y_aligned)
     = [Fin 0, Fin 0, NaN]"
    "map lockdown_slope (join_table next_day_quarantine zero_intercept_aligned)
     = [PInf, PInf, NaN]"
    by (simp_all add: zero_lockdown_y_rows zero_intercept_rows synthetic_def)
  ultimately show ?thesis by (intro conjI)
qed

text \<open>
  C9 (as amended). The join raises \<open>ValueError\<close> (line 87) exactly when no intervention row
  without a missing cell belongs to a group of the aligned table. When it returns a table,
  the table has the row count of the aligned table plus the number of its groups, so at
  least the row count of the aligned table. Adding the \<open>y\<close> column keeps the row count, and
  so does the pipeline's path without an intervention table; the selection of the top
  groups, the start criterion of the spec and the domain clipper never add a row.
\<close>

theorem row_counts:
  "(join_quarantine q df = Inl ValueError \<longleftrightarrow>
      \<not> (\<exists>i\<in>set q. \<exists>a\<in>set df. \<exists>g d t.
            complete i = Some (g, d, t) \<and> observation.group_id a = g))
   \<and> (\<forall>tab. join_quarantine q df = Inr tab \<longrightarrow>
         length tab = length df + card (observation.group_id ` set df) \<and> length df \<le> length tab)
   \<and> length (no_quarantine df) = length df
   \<and> length (add_y c df0) = length df0
   \<and> length (top_k k s) \<le> length s
   \<and> length (DaysSinceNumReached N col s) \<le> length s
   \<and> length (clip xd yd tab') \<le> length tab'"
proof -
  have "length (new_rows (joined (offsets q df) df)) = card (observation.group_id ` set df)"
  proof -
    have "length (new_rows (joined (offsets q df) df)) = length (groupby_keys (map observation.group_id df))"
      using new_rows_keys [of "joined (offsets q df) df"] joined_group_id [of q df]
      by (metis length_map)
    also have "\<dots> = card (set (groupby_keys (map observation.group_id df)))"
      by (rule distinct_card [symmetric]) simp
    finally show ?thesis by simp
  qed
  then have "length (join_table q df) = length df + card (observation.group_id ` set df)"
    by (simp add: join_table_def Let_def joined_length)
  with join_quarantine_Inr [of q df]
  have 2: "\<forall>tab. join_quarantine q df = Inr tab \<longrightarrow>
         length tab = length df + card (observation.group_id ` set df) \<and> length df \<le> length tab"
    by auto
  have 3: "length (no_quarantine df) = length df"
    by (simp add: no_quarantine_def join_lockdown_def merge_left_def)
  have 5: "length (top_k k s) \<le> length s"
    by (cases k) (simp_all add: top_k_def Let_def)
  have 7: "length (clip xd yd tab') \<le> length tab'"
  proof -
    have "length (clip_x xd tab') \<le> length tab'"
      by (cases xd) (simp_all add: clip_x_def)
    moreover have "length (clip_y yd (clip_x xd tab')) \<le> length (clip_x xd tab')"
      by (cases yd) (simp_all add: clip_y_def)
    ultimately show ?thesis by (simp add: clip_def)
  qed
  show ?thesis
    apply (intro conjI)
          apply (rule join_quarantine_Inl)
         apply (rule 2)
        apply (rule 3)
       apply (rule add_y_length)
      apply (rule 5)
     apply (rule DaysSinceNumReached_length)
    apply (rule 7)
    done
qed

theorem row_counts_witness:
  "join_quarantine ex_quarantine ex_aligned = Inr (join_table ex_quarantine ex_aligned)
   \<and> length (join_table ex_quarantine ex_aligned) = 5 \<and> length ex_aligned = 3
   \<and> card (observation.group_id ` set ex_aligned) = 2"
proof -
  have "card (set (map observation.group_id ex_aligned)) = 2"
    by (simp only: card_set) (simp add: ex_aligned_def aligned_def)
  then have c: "card (observation.group_id ` set ex_aligned) = 2"
    by (simp only: set_map)
  have l: "length ex_aligned = 3" by (simp add: ex_aligned_def)
  from row_counts [of ex_quarantine ex_aligned, THEN conjunct2, THEN conjunct1, THEN spec, THEN mp,
      OF ex_join_quarantine] c l
  have "length (join_table ex_quarantine ex_aligned) = 5" by simp
  with ex_join_quarantine c l show ?thesis by (intro conjI)
qed

theorem row_counts_counterexample:
  "preprocess_df ex_chart ex_observations = Inr
    [\<lparr>chart_row.group_id = ''A'', date = Some 10, measure = Some 40, y = Some 50,
       date_of_N = Some 10, x = Some 0, lockdown_date = Some 12, lockdown_type = Some ''partial'',
       lockdown_x = Some 2, intercept = Some 50, lockdown_y = Some 50, lockdown_slope = Fin 1\<rparr>,
     \<lparr>chart_row.group_id = ''A'', date = Some 20, measure = Some 150, y = Some 200,
       date_of_N = Some 10, x = Some 10, lockdown_date = Some 12, lockdown_type = Some ''partial'',
       lockdown_x = Some 2, intercept = Some 50, lockdown_y = Some 50, lockdown_slope = Fin 1\<rparr>]
   \<and> length ex_observations = 4"
  using ex_pipeline by (simp add: ex_observations_def)

text \<open>
  C10. Every row appended after the intervention join has a missing \<open>y\<close> (and a missing
  cell in every column but the group, \<open>x\<close>, \<open>lockdown_x\<close> and \<open>lockdown_type\<close>). So with a
  y-domain configured the clipper removes every appended row: clipping the table that the
  join returns gives what clipping the joined table without the appended rows gives, and
  the output of the pipeline is the clipped joined table, each row of which has a \<open>y\<close>.
\<close>

theorem appended_rows_fail_ydomain:
  "(\<forall>s\<in>set (new_rows tab). chart_row.y s = None \<and> chart_row.date s = None
        \<and> chart_row.measure s = None \<and> chart_row.date_of_N s = None
        \<and> chart_row.lockdown_date s = None \<and> intercept s = None \<and> lockdown_y s = None
        \<and> lockdown_slope s = NaN)
   \<and> (\<forall>tab'. join_quarantine q df = Inr tab' \<longrightarrow>
         (\<exists>Q. with_lockdown_x (merge_date_of_N q df) = Inr Q
            \<and> tab' = joined Q df @ new_rows (joined Q df)
            \<and> clip xd (Some yd) tab' = clip xd (Some yd) (joined Q df)))
   \<and> (\<forall>out. quarantine_df c = Some q \<and> ydomain c = Some yd \<and> preprocess_df c df0 = Inr out \<longrightarrow>
         (\<exists>Q. with_lockdown_x (merge_date_of_N q
                   (start_criterion c (top_k (top_k_groups c) (add_y (ycol_is_cumulative c) df0))))
                 = Inr Q
            \<and> out = clip (xdomain c) (Some yd)
                (joined Q (start_criterion c (top_k (top_k_groups c) (add_y (ycol_is_cumulative c) df0)))))
         \<and> (\<forall>r\<in>set out. chart_row.y r \<noteq> None))"
proof -
  have 1: "\<forall>s\<in>set (new_rows tab). chart_row.y s = None \<and> chart_row.date s = None
        \<and> chart_row.measure s = None \<and> chart_row.date_of_N s = None
        \<and> chart_row.lockdown_date s = None \<and> intercept s = None \<and> lockdown_y s = None
        \<and> lockdown_slope s = NaN"
    by (intro ballI) (simp add: new_rows_mem)
  have 2: "\<exists>Q. with_lockdown_x (merge_date_of_N q df) = Inr Q
            \<and> tab' = joined Q df @ new_rows (joined Q df)
            \<and> clip xd (Some yd) tab' = clip xd (Some yd) (joined Q df)"
    if "join_quarantine q df = Inr tab'" for q df tab' xd
  proof -
    from join_quarantine_Inr [OF that] have "tab' = join_table q df" by simp
    then have "tab' = joined (offsets q df) df @ new_rows (joined (offsets q df) df)"
      by (simp add: join_table_def Let_def)
    moreover from this have "clip xd (Some yd) tab' = clip xd (Some yd) (joined (offsets q df) df)"
      by (simp add: clip_append clip_new_rows)
    ultimately show ?thesis
      using join_quarantine_with_lockdown_x [OF that] by blast
  qed
  have y: "\<forall>r\<in>set (clip xd (Some yd) tab''). chart_row.y r \<noteq> None" for xd tab''
    by (cases xd) (auto simp: clip_def clip_x_def clip_y_def dest: in_domain_present)
  have 3: "\<forall>out. quarantine_df c = Some q \<and> ydomain c = Some yd \<and> preprocess_df c df0 = Inr out \<longrightarrow>
         (\<exists>Q. with_lockdown_x (merge_date_of_N q
                   (start_criterion c (top_k (top_k_groups c) (add_y (ycol_is_cumulative c) df0))))
                 = Inr Q
            \<and> out = clip (xdomain c) (Some yd)
                (joined Q (start_criterion c (top_k (top_k_groups c) (add_y (ycol_is_cumulative c) df0)))))
         \<and> (\<forall>r\<in>set out. chart_row.y r \<noteq> None)"
  proof (intro allI impI)
    fix out
    let ?al = "start_criterion c (top_k (top_k_groups c) (add_y (ycol_is_cumulative c) df0))"
    assume h: "quarantine_df c = Some q \<and> ydomain c = Some yd \<and> preprocess_df c df0 = Inr out"
    then obtain tab' where j: "join_quarantine q ?al = Inr tab'"
      and out: "out = clip (xdomain c) (Some yd) tab'"
      by (auto simp: preprocess_df_def Let_def split: sum.splits)
    from 2 [OF j, of "xdomain c"] out y [of "xdomain c" tab']
    show "(\<exists>Q. with_lockdown_x (merge_date_of_N q ?al) = Inr Q
            \<and> out = clip (xdomain c) (Some yd) (joined Q ?al))
         \<and> (\<forall>r\<in>set out. chart_row.y r \<noteq> None)"
      by auto
  qed
  show ?thesis
    apply (intro conjI)
      apply (rule 1)
     apply (intro allI impI)
     apply (erule 2)
    apply (rule 3)
    done
qed

theorem appended_rows_fail_ydomain_witness:
  "new_rows (joined (offsets ex_quarantine ex_aligned) ex_aligned) \<noteq> []
   \<and> quarantine_df ex_chart = Some ex_quarantine \<and> ydomain ex_chart = Some (50, 1000000)
   \<and> (\<exists>out. preprocess_df ex_chart ex_observations = Inr out
         \<and> map chart_row.y out = [Some 50, Some 200]
         \<and> (\<exists>Q. with_lockdown_x (merge_date_of_N ex_quarantine
                   (start_criterion ex_chart (top_k (top_k_groups ex_chart)
                      (add_y (ycol_is_cumulative ex_chart) ex_observations)))) = Inr Q
              \<and> out = clip (xdomain ex_chart) (Some (50, 1000000))
                  (joined Q (start_criterion ex_chart (top_k (top_k_groups ex_chart)
                      (add_y (ycol_is_cumulative ex_chart) ex_observations))))))"
proof -
  have c: "quarantine_df ex_chart = Some ex_quarantine" "ydomain ex_chart = Some (50, 1000000)"
    by (simp_all add: ex_chart_def)
  obtain out where out: "preprocess_df ex_chart ex_observations = Inr out"
    and ys: "map chart_row.y out = [Some 50, Some 200]"
    using ex_pipeline by simp
  from c out have h: "quarantine_df ex_chart = Some ex_quarantine \<and> ydomain ex_chart = Some (50, 1000000)
      \<and> preprocess_df ex_chart ex_observations = Inr out" by simp
  note inst = appended_rows_fail_ydomain [of "joined (offsets ex_quarantine ex_aligned) ex_aligned"
      ex_quarantine ex_aligned "Some (0, 60)" "(50, 1000000)" ex_chart ex_observations,
      THEN conjunct2, THEN conjunct2, THEN spec, THEN mp, OF h, THEN conjunct1]
  have ne: "new_rows (joined (offsets ex_quarantine ex_aligned) ex_aligned) \<noteq> []"
    by (simp add: ex_new_rows)
  from inst obtain Q where Q: "with_lockdown_x (merge_date_of_N ex_quarantine
                   (start_criterion ex_chart (top_k (top_k_groups ex_chart)
                      (add_y (ycol_is_cumulative ex_chart) ex_observations)))) = Inr Q"
     "out = clip (xdomain ex_chart) (Some (50, 1000000))
                  (joined Q (start_criterion ex_chart (top_k (top_k_groups ex_chart)
                      (add_y (ycol_is_cumulative ex_chart) ex_observations))))"
    by blast
  show ?thesis
    by (intro conjI exI [of _ out] exI [of _ Q]) (rule ne c out ys Q)+
qed

section \<open>Domain clipping\<close>

lemma in_domain_iff:
  "in_domain (lo, hi) v = (\<exists>a. v = Some a \<and> lo \<le> a \<and> a \<le> hi)"
  by (cases v) (auto simp: in_domain_def le_col_def)

lemma clip_x_idem: "clip_x xd (clip_x xd df) = clip_x xd df"
  by (cases xd) (simp_all add: clip_x_def)

lemma clip_y_idem: "clip_y yd (clip_y yd df) = clip_y yd df"
  by (cases yd) (simp_all add: clip_y_def)

lemma clip_xy_commute: "clip_x xd (clip_y yd df) = clip_y yd (clip_x xd df)"
  by (cases xd; cases yd) (auto simp: clip_x_def clip_y_def intro: filter_cong)

text \<open>
  C8. With an x-domain configured the clipper keeps, in order, exactly the rows whose \<open>x\<close>
  is present and lies in the closed interval from \<open>xmin\<close> to \<open>xmax\<close>; likewise for the
  y-domain and \<open>y\<close>; a domain that is not configured filters nothing. Clipping a clipped
  table again with the same bounds changes nothing, and the clipper returns a table for
  every table, the empty one included.
\<close>

theorem domain_clipping:
  "clip_x (Some (xmin, xmax)) df =
     filter (\<lambda>r. \<exists>v. chart_row.x r = Some v \<and> xmin \<le> of_int v \<and> of_int v \<le> xmax) df
   \<and> clip_y (Some (ymin, ymax)) df =
     filter (\<lambda>r. \<exists>v. chart_row.y r = Some v \<and> ymin \<le> v \<and> v \<le> ymax) df
   \<and> clip_x None df = df \<and> clip_y None df = df
   \<and> clip xd yd df = clip_y yd (clip_x xd df)
   \<and> clip xd yd (clip xd yd df) = clip xd yd df
   \<and> clip xd yd [] = []"
proof -
  have x: "clip_x (Some (xmin, xmax)) df =
     filter (\<lambda>r. \<exists>v. chart_row.x r = Some v \<and> xmin \<le> of_int v \<and> of_int v \<le> xmax) df"
    unfolding clip_x_def by (auto simp: in_domain_iff intro!: filter_cong)
  have y: "clip_y (Some (ymin, ymax)) df =
     filter (\<lambda>r. \<exists>v. chart_row.y r = Some v \<and> ymin \<le> v \<and> v \<le> ymax) df"
    unfolding clip_y_def by (auto simp: in_domain_iff intro!: filter_cong)
  have idem: "clip xd yd (clip xd yd df) = clip xd yd df"
    unfolding clip_def by (simp add: clip_xy_commute clip_x_idem clip_y_idem)
  have e: "clip xd yd [] = []"
    by (cases xd; cases yd) (simp_all add: clip_def clip_x_def clip_y_def)
  show ?thesis using x y idem e by (simp add: clip_x_def clip_y_def clip_def)
qed

end
